theory Spec2Isabelle
  imports Main "HOL-Library.AList" "HOL-Library.Multiset"
begin

section \<open>Data model of util/pull/pull.go\<close>

text \<open>
  A shallow embedding of the Puller of \<^verbatim>\<open>util/pull/pull.go\<close>. Go structs are records,
  a Go map is a partial function (annotations, where \<open>None\<close> is the nil map) or an
  association list with distinct keys (the metadata map, which the code iterates), an
  \<^verbatim>\<open>error\<close> is a value of the datatype \<open>error\<close>, and a function that returns
  \<^verbatim>\<open>(T, error)\<close> returns \<open>error + T\<close>.
\<close>

type_synonym digest = string

record platform =
  Architecture :: string
  OS :: string
  OSVersion :: string
  OSFeatures :: "string list"
  Variant :: string

record descriptor =
  MediaType :: string
  Digest :: digest
  Size :: int
  URLs :: "string list"
  Annotations :: "(string \<rightharpoonup> string) option"
  Platform :: "platform option"

text \<open>The zero value of \<^verbatim>\<open>ocispec.Descriptor\<close>.\<close>

definition zeroDescriptor :: descriptor where
  "zeroDescriptor =
     \<lparr>MediaType = [], Digest = [], Size = 0, URLs = [], Annotations = None, Platform = None\<rparr>"

record manifest =
  Config :: descriptor
  Layers :: "descriptor list"

record referenceSpec =
  Locator :: string
  Object :: string

text \<open>\<^verbatim>\<open>platforms.Only(p.Platform)\<close>: the matcher is determined by the platform.\<close>

datatype matchComparer = Only platform

text \<open>
  Errors. \<open>ErrorsNew\<close> is \<^verbatim>\<open>errors.New\<close>, \<open>WithStack\<close> and \<open>Wrap\<close> are the wrappers of
  \<^verbatim>\<open>github.com/pkg/errors\<close>, \<open>ErrExternal\<close> is an error value made by a collaborator,
  and \<open>ErrMismatched\<close> is the \<^verbatim>\<open>errors.Errorf\<close> of \<^verbatim>\<open>getLayers\<close>, which formats both
  compared sequences into its message: the constructor carries the two sequences.
\<close>

datatype error =
    ErrorsNew string
  | ErrSkipDesc
  | ErrStopHandler
  | ErrExternal string
  | WithStack error
  | Wrap error string
  | ErrMismatched "digest list" "descriptor list"

text \<open>Media types, as declared by containerd's \<^verbatim>\<open>images\<close> package and by \<^verbatim>\<open>ocispec\<close>.\<close>

definition MediaTypeDockerSchema2Layer :: string where
  "MediaTypeDockerSchema2Layer = ''application/vnd.docker.image.rootfs.diff.tar''"

definition MediaTypeDockerSchema2LayerForeign :: string where
  "MediaTypeDockerSchema2LayerForeign = ''application/vnd.docker.image.rootfs.foreign.diff.tar''"

definition MediaTypeDockerSchema2LayerGzip :: string where
  "MediaTypeDockerSchema2LayerGzip = ''application/vnd.docker.image.rootfs.diff.tar.gzip''"

definition MediaTypeDockerSchema2LayerForeignGzip :: string where
  "MediaTypeDockerSchema2LayerForeignGzip =
     ''application/vnd.docker.image.rootfs.foreign.diff.tar.gzip''"

definition MediaTypeDockerSchema2Config :: string where
  "MediaTypeDockerSchema2Config = ''application/vnd.docker.container.image.v1+json''"

definition MediaTypeDockerSchema2Manifest :: string where
  "MediaTypeDockerSchema2Manifest = ''application/vnd.docker.distribution.manifest.v2+json''"

definition MediaTypeDockerSchema1Manifest :: string where
  "MediaTypeDockerSchema1Manifest =
     ''application/vnd.docker.distribution.manifest.v1+prettyjws''"

definition MediaTypeImageLayer :: string where
  "MediaTypeImageLayer = ''application/vnd.oci.image.layer.v1.tar''"

definition MediaTypeImageLayerGzip :: string where
  "MediaTypeImageLayerGzip = ''application/vnd.oci.image.layer.v1.tar+gzip''"

definition MediaTypeImageConfig :: string where
  "MediaTypeImageConfig = ''application/vnd.oci.image.config.v1+json''"

definition MediaTypeImageManifest :: string where
  "MediaTypeImageManifest = ''application/vnd.oci.image.manifest.v1+json''"

subsection \<open>The Puller and its collaborators\<close>

text \<open>
  The private fields of \<^verbatim>\<open>Puller\<close>. \<open>resolveOnce\<close> is the done flag of the
  \<^verbatim>\<open>sync.Once\<close>; \<open>resolveErr = None\<close> is the nil error; a nil slice is the empty list.
  The \<^verbatim>\<open>ContentStore\<close> and \<^verbatim>\<open>Resolver\<close> handles are the operations of the
  environment below.
\<close>

record puller =
  Src :: referenceSpec
  Platform_p :: platform
  resolveOnce :: bool
  resolveErr :: "error option"
  desc :: descriptor
  configDesc :: descriptor
  ref :: string
  layers :: "descriptor list"
  nonlayers :: "descriptor list"

text \<open>\<^verbatim>\<open>solver.Remote\<close>: the provider is the puller itself, returned beside the result.\<close>

record remote =
  Descriptors :: "descriptor list"

record pulledManifests =
  Ref :: string
  MainManifestDesc :: descriptor
  ConfigDesc :: descriptor
  Nonlayers :: "descriptor list"
  Remote :: remote

text \<open>
  The collaborators, none of which is in the source file: the content store, the remote
  resolver, the handlers of containerd, the schema1 converter, the manifest and image
  config readers, and the order in which Go iterates a map. Each is a parameter. A
  collaborator acts on an external state \<open>'x\<close> (store contents, registry, network),
  which it may change; \<open>'f\<close> is the type of fetchers and \<open>'r\<close> of readers.
  \<open>schema1_Convert\<close> returns a descriptor beside its error, as the Go method does.
\<close>

type_synonym 'x exthandler = "descriptor \<Rightarrow> 'x \<Rightarrow> (error + descriptor list) \<times> 'x"

record ('x, 'f, 'r) env =
  Src_String :: "referenceSpec \<Rightarrow> string"
  Src_Digest :: "referenceSpec \<Rightarrow> digest"
  ContentStore_Info :: "digest \<Rightarrow> 'x \<Rightarrow> (error + int) \<times> 'x"
  ContentStore_ReaderAt :: "descriptor \<Rightarrow> 'x \<Rightarrow> (error + 'r) \<times> 'x"
  DetectManifestMediaType :: "'r \<Rightarrow> 'x \<Rightarrow> (error + string) \<times> 'x"
  Resolver_Resolve :: "string \<Rightarrow> 'x \<Rightarrow> (error + string \<times> descriptor) \<times> 'x"
  Resolver_Fetcher :: "string \<Rightarrow> 'x \<Rightarrow> (error + 'f) \<times> 'x"
  FetchHandler :: "'f \<Rightarrow> 'x exthandler"
  ChildrenHandler :: "'x exthandler"
  FilterPlatforms :: "'x exthandler \<Rightarrow> matchComparer \<Rightarrow> 'x exthandler"
  LimitManifests :: "'x exthandler \<Rightarrow> matchComparer \<Rightarrow> nat \<Rightarrow> 'x exthandler"
  AppendDistributionSourceLabel :: "string \<Rightarrow> error + 'x exthandler"
  schema1_Handle :: "'f \<Rightarrow> 'x exthandler"
  schema1_Convert :: "'f \<Rightarrow> 'x \<Rightarrow> (descriptor \<times> error option) \<times> 'x"
  images_Manifest :: "descriptor \<Rightarrow> matchComparer \<Rightarrow> 'x \<Rightarrow> (error + manifest) \<times> 'x"
  image_RootFS :: "descriptor \<Rightarrow> matchComparer \<Rightarrow> 'x \<Rightarrow> (error + digest list) \<times> 'x"
  FromFetcher_ReaderAt :: "'f \<Rightarrow> descriptor \<Rightarrow> 'x \<Rightarrow> (error + 'r) \<times> 'x"
  mapRange :: "'x \<Rightarrow> (digest \<times> descriptor) list \<Rightarrow> descriptor list"

text \<open>
  Every call of a collaborator is recorded, in order, beside the external state, so that
  "is never contacted" and "is not fetched" are statements about the record of calls.
\<close>

datatype handlerName = H_schema1 | H_fetch | H_children | H_dsl

datatype call =
    Call_Info digest
  | Call_StoreReaderAt descriptor
  | Call_Detect
  | Call_Resolve string
  | Call_Fetcher string
  | Call_Handle handlerName descriptor
  | Call_Convert
  | Call_Manifest descriptor
  | Call_RootFS descriptor
  | Call_FetcherReaderAt descriptor

record 'x world =
  ext :: 'x
  trace :: "call list"

definition extcall :: "call \<Rightarrow> ('x \<Rightarrow> 'a \<times> 'x) \<Rightarrow> 'x world \<Rightarrow> 'a \<times> 'x world" where
  "extcall c f w = (case f (ext w) of (r, x) \<Rightarrow> (r, \<lparr>ext = x, trace = trace w @ [c]\<rparr>))"

section \<open>Layer reconciliation\<close>

text \<open>The body of the loop of \<^verbatim>\<open>getLayers\<close>, lines 236 to 240, for one index.\<close>

definition annotate :: "descriptor \<Rightarrow> digest \<Rightarrow> descriptor" where
  "annotate d diffID =
     (let d1 = (if Annotations d = None then d\<lparr>Annotations := Some Map.empty\<rparr> else d)
      in d1\<lparr>Annotations := Some ((the (Annotations d1))(''containerd.io/uncompressed'' \<mapsto> diffID))\<rparr>)"

text \<open>
  \<^verbatim>\<open>getLayers\<close>. The loop runs over the indices of \<open>diffIDs\<close>; the length check before
  it keeps \<open>Layers manifest ! i\<close> in range.
\<close>

definition getLayers ::
  "('x, 'f, 'r) env \<Rightarrow> descriptor \<Rightarrow> matchComparer \<Rightarrow> 'x world \<Rightarrow> (error + descriptor list) \<times> 'x world"
where
  "getLayers env d platform w =
     (case extcall (Call_Manifest d) (images_Manifest env d platform) w of
        (Inl err, w1) \<Rightarrow> (Inl (WithStack err), w1)
      | (Inr manifest, w1) \<Rightarrow>
          (case extcall (Call_RootFS d) (image_RootFS env d platform) w1 of
             (Inl err, w2) \<Rightarrow> (Inl (Wrap err ''failed to resolve rootfs''), w2)
           | (Inr diffIDs, w2) \<Rightarrow>
               if length diffIDs \<noteq> length (Layers manifest)
               then (Inl (ErrMismatched diffIDs (Layers manifest)), w2)
               else (Inr (map (\<lambda>i. annotate (Layers manifest ! i) (diffIDs ! i))
                            [0..<length diffIDs]), w2)))"

section \<open>Resolution\<close>

text \<open>
  \<^verbatim>\<open>tryLocalResolve\<close>, lines 65 to 91. The result is the returned error (\<open>None\<close> is
  nil). \<^verbatim>\<open>p.ref\<close> is assigned before the reader is opened, so it stays assigned when
  a later step fails.
\<close>

definition tryLocalResolve ::
  "('x, 'f, 'r) env \<Rightarrow> puller \<Rightarrow> 'x world \<Rightarrow> error option \<times> puller \<times> 'x world"
where
  "tryLocalResolve env p w =
     (let d0 = zeroDescriptor\<lparr>Digest := Src_Digest env (Src p)\<rparr> in
      if Digest d0 = [] then (Some (ErrorsNew ''empty digest''), p, w)
      else
        (case extcall (Call_Info (Digest d0)) (ContentStore_Info env (Digest d0)) w of
           (Inl err, w1) \<Rightarrow> (Some err, p, w1)
         | (Inr info_Size, w1) \<Rightarrow>
             (let d1 = d0\<lparr>Size := info_Size\<rparr>;
                  p1 = p\<lparr>ref := Src_String env (Src p)\<rparr>
              in case extcall (Call_StoreReaderAt d1) (ContentStore_ReaderAt env d1) w1 of
                   (Inl err, w2) \<Rightarrow> (Some err, p1, w2)
                 | (Inr ra, w2) \<Rightarrow>
                     (case extcall Call_Detect (DetectManifestMediaType env ra) w2 of
                        (Inl err, w3) \<Rightarrow> (Some err, p1, w3)
                      | (Inr mt, w3) \<Rightarrow> (None, p1\<lparr>desc := d1\<lparr>MediaType := mt\<rparr>\<rparr>, w3)))))"

text \<open>
  \<^verbatim>\<open>resolve\<close>, lines 48 to 63. \<^verbatim>\<open>resolveOnce.Do\<close> runs its body when the flag is
  unset and sets the flag when the body returns; in every case the function returns
  \<^verbatim>\<open>p.resolveErr\<close>.
\<close>

definition resolve ::
  "('x, 'f, 'r) env \<Rightarrow> puller \<Rightarrow> 'x world \<Rightarrow> error option \<times> puller \<times> 'x world"
where
  "resolve env p w =
     (if resolveOnce p then (resolveErr p, p, w)
      else
        (case tryLocalResolve env p w of
           (None, p1, w1) \<Rightarrow>
             (let p2 = p1\<lparr>resolveOnce := True\<rparr> in (resolveErr p2, p2, w1))
         | (Some _, p1, w1) \<Rightarrow>
             (case extcall (Call_Resolve (Src_String env (Src p1)))
                           (Resolver_Resolve env (Src_String env (Src p1))) w1 of
                (Inl err, w2) \<Rightarrow>
                  (let p2 = p1\<lparr>resolveErr := Some err, resolveOnce := True\<rparr>
                   in (resolveErr p2, p2, w2))
              | (Inr (r, d), w2) \<Rightarrow>
                  (let p2 = p1\<lparr>desc := d, ref := r, resolveOnce := True\<rparr>
                   in (resolveErr p2, p2, w2)))))"

section \<open>The handler chain\<close>

text \<open>
  \<^verbatim>\<open>filterLayerBlobs\<close>, lines 205 to 219. The metadata map is the state of the handler;
  \<open>None\<close> is the nil map, which the code leaves alone. \<^verbatim>\<open>return nil, nil\<close> is no
  children and no error.
\<close>

type_synonym metadata = "(digest \<times> descriptor) list option"

definition isLayerMediaType :: "string \<Rightarrow> bool" where
  "isLayerMediaType mt \<longleftrightarrow>
     mt = MediaTypeImageLayer \<or> mt = MediaTypeDockerSchema2Layer \<or>
     mt = MediaTypeImageLayerGzip \<or> mt = MediaTypeDockerSchema2LayerGzip \<or>
     mt = MediaTypeDockerSchema2LayerForeign \<or> mt = MediaTypeDockerSchema2LayerForeignGzip"

definition filterLayerBlobs ::
  "descriptor \<Rightarrow> metadata \<Rightarrow> (error + descriptor list) \<times> metadata"
where
  "filterLayerBlobs d md =
     (if isLayerMediaType (MediaType d) then (Inl ErrSkipDesc, md)
      else (Inr [],
            (case md of None \<Rightarrow> None
             | Some m \<Rightarrow> Some (AList.update (Digest d) d m))))"

text \<open>
  A handler of the chain acts on the metadata map and on the world. \<open>onMetadata\<close> lifts
  the filter, \<open>onWorld\<close> lifts a handler of a collaborator and records its call.
\<close>

type_synonym 's handler = "descriptor \<Rightarrow> 's \<Rightarrow> (error + descriptor list) \<times> 's"

definition onMetadata ::
  "(descriptor \<Rightarrow> metadata \<Rightarrow> (error + descriptor list) \<times> metadata) \<Rightarrow>
   (metadata \<times> 'x world) handler"
where
  "onMetadata h d s = (case h d (fst s) of (r, md) \<Rightarrow> (r, (md, snd s)))"

definition onWorld :: "handlerName \<Rightarrow> 'x exthandler \<Rightarrow> (metadata \<times> 'x world) handler" where
  "onWorld n h d s =
     (case extcall (Call_Handle n d) (h d) (snd s) of (r, w) \<Rightarrow> (r, (fst s, w)))"

text \<open>
  Modelled from the spec: \<^verbatim>\<open>images.Handlers\<close> and \<^verbatim>\<open>images.Dispatch\<close> belong to
  containerd and are not in the source file. Section 4.2 and the design notes give their
  contract: the handlers of a chain are applied to a node one after the other, an error
  of a handler ends the chain for that node; a skip signal leaves the node and its
  subtree while the siblings are still visited; any other error aborts the walk. The
  stop signal of containerd ends the chain without an error. The walk is modelled
  sequentially, first child first; the parallel scheduling of siblings is not modelled.
  A graph given by collaborators need not be finite, so \<open>Dispatch\<close> takes fuel for its
  depth and returns \<open>None\<close> when it runs out.
\<close>

fun Cause :: "error \<Rightarrow> error" where
  "Cause (WithStack e) = Cause e"
| "Cause (Wrap e m) = Cause e"
| "Cause e = e"

fun isErrSkipDesc :: "error \<Rightarrow> bool" where
  "isErrSkipDesc ErrSkipDesc = True"
| "isErrSkipDesc e = False"

fun isErrStopHandler :: "error \<Rightarrow> bool" where
  "isErrStopHandler ErrStopHandler = True"
| "isErrStopHandler e = False"

fun Handlers :: "'s handler list \<Rightarrow> 's handler" where
  "Handlers [] d s = (Inr [], s)"
| "Handlers (h # hs) d s =
     (case h d s of
        (Inl err, s1) \<Rightarrow> if isErrStopHandler (Cause err) then (Inr [], s1) else (Inl err, s1)
      | (Inr ch, s1) \<Rightarrow>
          (case Handlers hs d s1 of
             (Inl err, s2) \<Rightarrow> (Inl err, s2)
           | (Inr chs, s2) \<Rightarrow> (Inr (ch @ chs), s2)))"

fun Dispatch :: "nat \<Rightarrow> 's handler \<Rightarrow> descriptor list \<Rightarrow> 's \<Rightarrow> (error option \<times> 's) option" where
  "Dispatch n h [] s = Some (None, s)"
| "Dispatch n h (d # ds) s =
     (case h d s of
        (Inl err, s1) \<Rightarrow>
          if isErrSkipDesc (Cause err) then Dispatch n h ds s1 else Some (Some err, s1)
      | (Inr children, s1) \<Rightarrow>
          if children = [] then Dispatch n h ds s1
          else
            (case n of
               0 \<Rightarrow> None
             | Suc m \<Rightarrow>
                 (case Dispatch m h children s1 of
                    None \<Rightarrow> None
                  | Some (Some err, s2) \<Rightarrow> Some (Some err, s2)
                  | Some (None, s2) \<Rightarrow> Dispatch n h ds s2)))"

section \<open>PullManifests and ReaderAt\<close>

text \<open>The handlers of the normal path in the order of lines 135 to 140.\<close>

definition normalHandlers ::
  "('x, 'f, 'r) env \<Rightarrow> 'f \<Rightarrow> matchComparer \<Rightarrow> 'x exthandler \<Rightarrow>
   (metadata \<times> 'x world) handler list"
where
  "normalHandlers env fetcher platform dslHandler =
     [onMetadata filterLayerBlobs,
      onWorld H_fetch (FetchHandler env fetcher),
      onWorld H_children
        (LimitManifests env (FilterPlatforms env (ChildrenHandler env) platform) platform 1),
      onWorld H_dsl dslHandler]"

text \<open>
  The handlers \<^verbatim>\<open>PullManifests\<close> builds, lines 114 to 141: the schema1 converter alone
  when the root is a schema1 manifest, the normal chain otherwise, which fails when the
  distribution source label cannot be made.
\<close>

definition walkHandlers ::
  "('x, 'f, 'r) env \<Rightarrow> puller \<Rightarrow> 'f \<Rightarrow> matchComparer \<Rightarrow>
   error + (metadata \<times> 'x world) handler list"
where
  "walkHandlers env p fetcher platform =
     (if MediaType (desc p) = MediaTypeDockerSchema1Manifest
      then Inr [onWorld H_schema1 (schema1_Handle env fetcher)]
      else
        (case AppendDistributionSourceLabel env (ref p) of
           Inl err \<Rightarrow> Inl err
         | Inr dslHandler \<Rightarrow> Inr (normalHandlers env fetcher platform dslHandler)))"

text \<open>
  Lines 147 to 161, after the first dispatch: when the converter was made, which is when
  the root is a schema1 manifest, the conversion and the second dispatch that only
  gathers metadata. Line 148 assigns \<^verbatim>\<open>p.desc\<close> also when the conversion fails.
\<close>

definition convertSchema1 ::
  "nat \<Rightarrow> ('x, 'f, 'r) env \<Rightarrow> puller \<Rightarrow> 'f \<Rightarrow> matchComparer \<Rightarrow> metadata \<times> 'x world \<Rightarrow>
   ((error + metadata) \<times> puller \<times> 'x world) option"
where
  "convertSchema1 fuel env p fetcher platform s =
     (if MediaType (desc p) = MediaTypeDockerSchema1Manifest then
        (case extcall Call_Convert (schema1_Convert env fetcher) (snd s) of
           ((d, Some err), w3) \<Rightarrow> Some (Inl err, p\<lparr>desc := d\<rparr>, w3)
         | ((d, None), w3) \<Rightarrow>
             (case Dispatch fuel
                     (Handlers [onMetadata filterLayerBlobs,
                                onWorld H_children
                                  (FilterPlatforms env (ChildrenHandler env) platform)])
                     [d] (fst s, w3) of
                None \<Rightarrow> None
              | Some (Some err, s4) \<Rightarrow> Some (Inl err, p\<lparr>desc := d\<rparr>, snd s4)
              | Some (None, s4) \<Rightarrow> Some (Inr (fst s4), p\<lparr>desc := d\<rparr>, snd s4)))
      else Some (Inr (fst s), p, snd s))"

text \<open>
  The graph walk of \<^verbatim>\<open>PullManifests\<close>, lines 99 to 161, entered after a successful
  \<^verbatim>\<open>resolve\<close>: the platform matcher, the fresh metadata map, the fetcher, the handlers,
  the dispatch from the root descriptor, and the schema1 conversion. It returns the
  metadata map it collected, and \<open>None\<close> when a dispatch runs out of fuel.
\<close>

definition walk ::
  "nat \<Rightarrow> ('x, 'f, 'r) env \<Rightarrow> puller \<Rightarrow> 'x world \<Rightarrow> ((error + metadata) \<times> puller \<times> 'x world) option"
where
  "walk fuel env p w =
     (let platform = Only (Platform_p p);
          metadata = Some []
      in case extcall (Call_Fetcher (ref p)) (Resolver_Fetcher env (ref p)) w of
           (Inl err, w1) \<Rightarrow> Some (Inl err, p, w1)
         | (Inr fetcher, w1) \<Rightarrow>
             (case walkHandlers env p fetcher platform of
                Inl err \<Rightarrow> Some (Inl err, p, w1)
              | Inr handlers \<Rightarrow>
                  (case Dispatch fuel (Handlers handlers) [desc p] (metadata, w1) of
                     None \<Rightarrow> None
                   | Some (Some err, s2) \<Rightarrow> Some (Inl err, p, snd s2)
                   | Some (None, s2) \<Rightarrow> convertSchema1 fuel env p fetcher platform s2)))"

text \<open>The body of the loop over the metadata map, lines 164 to 168.\<close>

definition isConfigMediaType :: "string \<Rightarrow> bool" where
  "isConfigMediaType mt \<longleftrightarrow> mt = MediaTypeDockerSchema2Config \<or> mt = MediaTypeImageConfig"

definition partitionStep :: "puller \<Rightarrow> descriptor \<Rightarrow> puller" where
  "partitionStep p d =
     (let p1 = p\<lparr>nonlayers := nonlayers p @ [d]\<rparr>
      in if isConfigMediaType (MediaType d) then p1\<lparr>configDesc := d\<rparr> else p1)"

text \<open>
  \<^verbatim>\<open>PullManifests\<close>, lines 93 to 187. The loop of lines 163 to 169 visits the values of
  the metadata map in the order \<open>mapRange\<close> gives. \<^verbatim>\<open>p.layers\<close> is assigned the result
  of \<^verbatim>\<open>getLayers\<close> also when that is nil with an error. The result is \<open>None\<close> when the
  walk runs out of fuel.
\<close>

definition PullManifests ::
  "nat \<Rightarrow> ('x, 'f, 'r) env \<Rightarrow> puller \<Rightarrow> 'x world \<Rightarrow>
   ((error + pulledManifests) \<times> puller \<times> 'x world) option"
where
  "PullManifests fuel env p w =
     (case resolve env p w of
        (Some err, p1, w1) \<Rightarrow> Some (Inl err, p1, w1)
      | (None, p1, w1) \<Rightarrow>
          (case walk fuel env p1 w1 of
             None \<Rightarrow> None
           | Some (Inl err, p2, w2) \<Rightarrow> Some (Inl err, p2, w2)
           | Some (Inr md, p2, w2) \<Rightarrow>
               (let p3 = foldl partitionStep p2
                           (mapRange env (ext w2) (case md of None \<Rightarrow> [] | Some m \<Rightarrow> m))
                in case getLayers env (desc p3) (Only (Platform_p p3)) w2 of
                     (Inl err, w3) \<Rightarrow> Some (Inl err, p3\<lparr>layers := []\<rparr>, w3)
                   | (Inr ls, w3) \<Rightarrow>
                       (let p4 = p3\<lparr>layers := ls\<rparr>
                        in Some (Inr \<lparr>Ref = ref p4, MainManifestDesc = desc p4,
                                      ConfigDesc = configDesc p4, Nonlayers = nonlayers p4,
                                      Remote = \<lparr>Descriptors = layers p4\<rparr>\<rparr>,
                                 p4, w3)))))"

text \<open>
  \<^verbatim>\<open>ReaderAt\<close>, lines 189 to 201. \<^verbatim>\<open>contentutil.FromFetcher(fetcher).ReaderAt\<close> is the
  collaborator \<open>FromFetcher_ReaderAt\<close>.
\<close>

definition ReaderAt ::
  "('x, 'f, 'r) env \<Rightarrow> puller \<Rightarrow> descriptor \<Rightarrow> 'x world \<Rightarrow> (error + 'r) \<times> puller \<times> 'x world"
where
  "ReaderAt env p d w =
     (case resolve env p w of
        (Some err, p1, w1) \<Rightarrow> (Inl err, p1, w1)
      | (None, p1, w1) \<Rightarrow>
          (case extcall (Call_Fetcher (ref p1)) (Resolver_Fetcher env (ref p1)) w1 of
             (Inl err, w2) \<Rightarrow> (Inl err, p1, w2)
           | (Inr fetcher, w2) \<Rightarrow>
               (case extcall (Call_FetcherReaderAt d) (FromFetcher_ReaderAt env fetcher d) w2 of
                  (r, w3) \<Rightarrow> (r, p1, w3))))"

section \<open>An instance in use\<close>

text \<open>
  The three methods of a \<^verbatim>\<open>Puller\<close> that a caller can invoke, and a run of any
  sequence of them on one instance, each call on the puller and the world the previous
  one left. The run is \<open>None\<close> when a \<^verbatim>\<open>PullManifests\<close> runs out of fuel.
\<close>

datatype op = Op_resolve | Op_PullManifests nat | Op_ReaderAt descriptor


section \<open>A concrete image\<close>

text \<open>
  A small image on which the functions can be run: a schema 2 manifest with one config
  and one gzip layer, a content store that holds the manifest, a resolver that refuses
  every reference, and collaborators without state of their own.
\<close>

definition exManifestDesc :: descriptor where
  "exManifestDesc = zeroDescriptor\<lparr>MediaType := MediaTypeDockerSchema2Manifest,
                                   Digest := ''sha256:m'', Size := 7\<rparr>"

definition exConfigDesc :: descriptor where
  "exConfigDesc = zeroDescriptor\<lparr>MediaType := MediaTypeDockerSchema2Config,
                                 Digest := ''sha256:c'', Size := 3\<rparr>"

definition exLayerDesc :: descriptor where
  "exLayerDesc = zeroDescriptor\<lparr>MediaType := MediaTypeDockerSchema2LayerGzip,
                                Digest := ''sha256:l'', Size := 9\<rparr>"

definition exPlatform :: platform where
  "exPlatform = \<lparr>Architecture = ''amd64'', OS = ''linux'', OSVersion = [],
                 OSFeatures = [], Variant = []\<rparr>"

definition exEnv :: "(unit, string, string) env" where
  "exEnv =
     \<lparr>Src_String = (\<lambda>s. if Object s = [] then Locator s
                         else if hd (Object s) = CHR ''@'' then Locator s @ Object s
                         else Locator s @ '':'' @ Object s),
      Src_Digest = (\<lambda>s. if CHR ''@'' \<in> set (Object s)
                         then tl (dropWhile (\<lambda>c. c \<noteq> CHR ''@'') (Object s)) else []),
      ContentStore_Info = (\<lambda>dg x. if dg = ''sha256:m'' then (Inr 7, x)
                                   else (Inl (ErrExternal ''not found''), x)),
      ContentStore_ReaderAt = (\<lambda>d x. if Digest d = ''sha256:m'' then (Inr ''manifest'', x)
                                      else (Inl (ErrExternal ''not found''), x)),
      DetectManifestMediaType = (\<lambda>r x. (Inr MediaTypeDockerSchema2Manifest, x)),
      Resolver_Resolve = (\<lambda>s x. (Inl (ErrExternal ''resolve refused''), x)),
      Resolver_Fetcher = (\<lambda>s x. (Inr s, x)),
      FetchHandler = (\<lambda>f d x. (Inr [], x)),
      ChildrenHandler = (\<lambda>d x. if MediaType d = MediaTypeDockerSchema2Manifest
                                 then (Inr [exConfigDesc, exLayerDesc], x) else (Inr [], x)),
      FilterPlatforms = (\<lambda>h m. h),
      LimitManifests = (\<lambda>h m n. h),
      AppendDistributionSourceLabel = (\<lambda>s. Inr (\<lambda>d x. (Inr [], x))),
      schema1_Handle = (\<lambda>f d x. (Inr [], x)),
      schema1_Convert = (\<lambda>f x. ((exManifestDesc, None), x)),
      images_Manifest = (\<lambda>d m x. (Inr \<lparr>Config = exConfigDesc, Layers = [exLayerDesc]\<rparr>, x)),
      image_RootFS = (\<lambda>d m x. (Inr [''sha256:diff''], x)),
      FromFetcher_ReaderAt = (\<lambda>f d x. (Inr (f @ ''/'' @ Digest d), x)),
      mapRange = (\<lambda>x kvs. map snd kvs)\<rparr>"

text \<open>A new puller: only the public fields are set, the rest are zero values.\<close>

definition newPuller :: "referenceSpec \<Rightarrow> platform \<Rightarrow> puller" where
  "newPuller src pf =
     \<lparr>Src = src, Platform_p = pf, resolveOnce = False, resolveErr = None,
      desc = zeroDescriptor, configDesc = zeroDescriptor, ref = [], layers = [],
      nonlayers = []\<rparr>"

definition exPuller :: puller where
  "exPuller = newPuller \<lparr>Locator = ''docker.io/library/busybox'', Object = ''@sha256:m''\<rparr> exPlatform"

definition exWorld :: "unit world" where
  "exWorld = \<lparr>ext = (), trace = []\<rparr>"

text \<open>A puller whose reference is a tag, so that it carries no digest.\<close>

definition exTagPuller :: puller where
  "exTagPuller = newPuller \<lparr>Locator = ''docker.io/library/busybox'', Object = ''latest''\<rparr> exPlatform"

text \<open>The example store with the layer of its manifest already annotated.\<close>

definition exAnnotatedEnv :: "(unit, string, string) env" where
  "exAnnotatedEnv =
     exEnv\<lparr>images_Manifest :=
             (\<lambda>d m x. (Inr \<lparr>Config = exConfigDesc,
                               Layers = [annotate exLayerDesc ''sha256:diff'']\<rparr>, x))\<rparr>"

text \<open>
  The first call of \<^verbatim>\<open>PullManifests\<close> on the new puller: its result, the puller and
  the world it leaves. Then a second call on that puller.
\<close>

definition exRef :: string where
  "exRef = ''docker.io/library/busybox@sha256:m''"

definition exResult1 :: pulledManifests where
  "exResult1 =
     \<lparr>Ref = exRef, MainManifestDesc = exManifestDesc, ConfigDesc = exConfigDesc,
      Nonlayers = [exManifestDesc, exConfigDesc],
      Remote = \<lparr>Descriptors = [annotate exLayerDesc ''sha256:diff'']\<rparr>\<rparr>"

definition exPuller1 :: puller where
  "exPuller1 =
     exPuller\<lparr>resolveOnce := True, desc := exManifestDesc, configDesc := exConfigDesc,
              ref := exRef, layers := [annotate exLayerDesc ''sha256:diff''],
              nonlayers := [exManifestDesc, exConfigDesc]\<rparr>"

text \<open>The stages of that first call: after \<^verbatim>\<open>resolve\<close>, and after the walk.\<close>

definition exLocalCalls :: "call list" where
  "exLocalCalls =
     [Call_Info ''sha256:m'',
      Call_StoreReaderAt (zeroDescriptor\<lparr>Digest := ''sha256:m'', Size := 7\<rparr>),
      Call_Detect]"

definition exResolved :: puller where
  "exResolved = exPuller\<lparr>ref := exRef, desc := exManifestDesc, resolveOnce := True\<rparr>"

definition exResolvedWorld :: "unit world" where
  "exResolvedWorld = \<lparr>ext = (), trace = exLocalCalls\<rparr>"

definition exHandleCalls :: "call list" where
  "exHandleCalls =
     [Call_Handle H_fetch exManifestDesc, Call_Handle H_children exManifestDesc,
      Call_Handle H_dsl exManifestDesc,
      Call_Handle H_fetch exConfigDesc, Call_Handle H_children exConfigDesc,
      Call_Handle H_dsl exConfigDesc]"

definition exMetadata :: "(digest \<times> descriptor) list" where
  "exMetadata = [(''sha256:m'', exManifestDesc), (''sha256:c'', exConfigDesc)]"

definition exWalkedWorld :: "unit world" where
  "exWalkedWorld = \<lparr>ext = (), trace = exLocalCalls @ Call_Fetcher exRef # exHandleCalls\<rparr>"

definition exWalkCalls :: "call list" where
  "exWalkCalls =
     Call_Fetcher exRef # exHandleCalls @
     [Call_Manifest exManifestDesc, Call_RootFS exManifestDesc]"

definition exWorld1 :: "unit world" where
  "exWorld1 = \<lparr>ext = (), trace = exLocalCalls @ exWalkCalls\<rparr>"

definition exResult2 :: pulledManifests where
  "exResult2 =
     exResult1\<lparr>Nonlayers := [exManifestDesc, exConfigDesc, exManifestDesc, exConfigDesc]\<rparr>"

definition exPuller2 :: puller where
  "exPuller2 =
     exPuller1\<lparr>nonlayers := [exManifestDesc, exConfigDesc, exManifestDesc, exConfigDesc]\<rparr>"

definition exWorld2 :: "unit world" where
  "exWorld2 = \<lparr>ext = (), trace = trace exWorld1 @ exWalkCalls\<rparr>"

text \<open>An image whose config lists two diff IDs for the one layer of the manifest.\<close>

definition exMismatchEnv :: "(unit, string, string) env" where
  "exMismatchEnv =
     exEnv\<lparr>image_RootFS := (\<lambda>d m x. (Inr [''sha256:diff'', ''sha256:diff2''], x))\<rparr>"

text \<open>
  The same store when the stored root blob is sniffed as a schema1 manifest: the
  converter turns it into the schema 2 manifest of the example.
\<close>

definition exSchema1Env :: "(unit, string, string) env" where
  "exSchema1Env =
     exEnv\<lparr>DetectManifestMediaType := (\<lambda>r x. (Inr MediaTypeDockerSchema1Manifest, x))\<rparr>"

definition exSchema1Desc :: descriptor where
  "exSchema1Desc = zeroDescriptor\<lparr>MediaType := MediaTypeDockerSchema1Manifest,
                                  Digest := ''sha256:m'', Size := 7\<rparr>"

definition exSchema1Resolved :: puller where
  "exSchema1Resolved = exPuller\<lparr>ref := exRef, desc := exSchema1Desc, resolveOnce := True\<rparr>"

definition exSchema1World1 :: "unit world" where
  "exSchema1World1 =
     \<lparr>ext = (),
      trace = exLocalCalls @
              [Call_Fetcher exRef, Call_Handle H_schema1 exSchema1Desc, Call_Convert,
               Call_Handle H_children exManifestDesc, Call_Handle H_children exConfigDesc,
               Call_Manifest exManifestDesc, Call_RootFS exManifestDesc]\<rparr>"

text \<open>
  The tag puller after its resolution has failed, and a sequence of later calls: on the
  resolved example puller the sequence ends with a read of the layer through the fetcher.
\<close>

definition exFailed :: puller where
  "exFailed =
     exTagPuller\<lparr>resolveErr := Some (ErrExternal ''resolve refused''), resolveOnce := True\<rparr>"

definition exFailedWorld :: "unit world" where
  "exFailedWorld = \<lparr>ext = (), trace = [Call_Resolve ''docker.io/library/busybox:latest'']\<rparr>"

definition exOps :: "op list" where
  "exOps = [Op_PullManifests 5, Op_resolve, Op_ReaderAt exLayerDesc]"

definition exWorld1Read :: "unit world" where
  "exWorld1Read =
     \<lparr>ext = (),
      trace = trace exWorld1 @ [Call_Fetcher exRef, Call_FetcherReaderAt exLayerDesc]\<rparr>"

section \<open>Predicates used in the statements\<close>

text \<open>
  The calls that resolution makes: the store lookup, the store reader and the sniffing
  of the local path, and the remote resolve.
\<close>

fun isResolutionCall :: "call \<Rightarrow> bool" where
  "isResolutionCall (Call_Info dg) = True"
| "isResolutionCall (Call_StoreReaderAt d) = True"
| "isResolutionCall Call_Detect = True"
| "isResolutionCall (Call_Resolve s) = True"
| "isResolutionCall c = False"

text \<open>
  What Go promises of a \<^verbatim>\<open>range\<close> over a map: every entry is visited once, in some
  order.
\<close>

definition rangesEveryEntry :: "('x, 'f, 'r) env \<Rightarrow> bool" where
  "rangesEveryEntry env \<longleftrightarrow> (\<forall>x m. mset (mapRange env x m) = mset (map snd m))"



text \<open>
  \<open>traceGrows Q w w'\<close>: the calls recorded in \<open>w'\<close> are those of \<open>w\<close> followed by
  calls that all satisfy \<open>Q\<close>.
\<close>

definition traceGrows :: "(call \<Rightarrow> bool) \<Rightarrow> 'x world \<Rightarrow> 'x world \<Rightarrow> bool" where
  "traceGrows Q w w' \<longleftrightarrow> (\<exists>rest. trace w' = trace w @ rest \<and> (\<forall>c \<in> set rest. Q c))"

text \<open>
  \<open>collected m md\<close>: the metadata map \<open>md\<close> is not nil, and each of its entries is
  an entry of \<open>m\<close> or a descriptor that is not a layer, stored under its own digest.
\<close>

definition collected :: "(digest \<times> descriptor) list \<Rightarrow> metadata \<Rightarrow> bool" where
  "collected m md \<longleftrightarrow>
     (\<exists>m'. md = Some m' \<and>
        (\<forall>k v. map_of m' k = Some v \<longrightarrow>
           map_of m k = Some v \<or> (k = Digest v \<and> \<not> isLayerMediaType (MediaType v))))"

text \<open>A call that hands a layer descriptor to a handler of a collaborator.\<close>

fun handlesLayer :: "call \<Rightarrow> bool" where
  "handlesLayer (Call_Handle n d) = isLayerMediaType (MediaType d)"
| "handlesLayer c = False"

lemmas mediaType_defs =
  MediaTypeDockerSchema2Layer_def MediaTypeDockerSchema2LayerForeign_def
  MediaTypeDockerSchema2LayerGzip_def MediaTypeDockerSchema2LayerForeignGzip_def
  MediaTypeDockerSchema2Config_def MediaTypeDockerSchema2Manifest_def
  MediaTypeDockerSchema1Manifest_def MediaTypeImageLayer_def MediaTypeImageLayerGzip_def
  MediaTypeImageConfig_def MediaTypeImageManifest_def

lemmas ex_defs =
  exEnv_def exPuller_def exTagPuller_def exAnnotatedEnv_def exMismatchEnv_def newPuller_def
  exWorld_def exManifestDesc_def exConfigDesc_def exLayerDesc_def exPlatform_def
  zeroDescriptor_def exRef_def exResult1_def exPuller1_def exWalkCalls_def exWorld1_def
  exResult2_def exPuller2_def exWorld2_def exLocalCalls_def exResolved_def
  exResolvedWorld_def exHandleCalls_def exMetadata_def exWalkedWorld_def exSchema1Env_def
  exSchema1Desc_def exSchema1Resolved_def exSchema1World1_def exFailed_def
  exFailedWorld_def exOps_def exWorld1Read_def

lemmas pull_defs =
  PullManifests_def walk_def walkHandlers_def convertSchema1_def normalHandlers_def
  resolve_def tryLocalResolve_def getLayers_def ReaderAt_def extcall_def onMetadata_def
  onWorld_def filterLayerBlobs_def isLayerMediaType_def partitionStep_def
  isConfigMediaType_def annotate_def

section \<open>Properties of layer reconciliation\<close>

lemma annotate_idem: "annotate (annotate d k) k = annotate d k"
  by (simp add: annotate_def Let_def)

lemma annotate_fields:
  "Annotations (annotate d k) \<noteq> None"
  "the (Annotations (annotate d k)) ''containerd.io/uncompressed'' = Some k"
  "annotate d k = d\<lparr>Annotations := Annotations (annotate d k)\<rparr>"
  "j \<noteq> ''containerd.io/uncompressed'' \<Longrightarrow>
     the (Annotations (annotate d k)) j = (case Annotations d of None \<Rightarrow> None | Some a \<Rightarrow> a j)"
  by (auto simp: annotate_def Let_def split: option.splits)

lemma getLayers_unfold:
  assumes "images_Manifest env d pf (ext w) = (Inr m, x1)"
    and "image_RootFS env d pf x1 = (Inr ds, x2)"
  shows "getLayers env d pf w =
           (if length ds \<noteq> length (Layers m) then Inl (ErrMismatched ds (Layers m))
            else Inr (map (\<lambda>i. annotate (Layers m ! i) (ds ! i)) [0..<length ds]),
            \<lparr>ext = x2, trace = trace w @ [Call_Manifest d, Call_RootFS d]\<rparr>)"
  using assms by (simp add: getLayers_def extcall_def)

text \<open>
  C2. When \<^verbatim>\<open>getLayers\<close> succeeds, it returns as many descriptors as the manifest has
  layers, in manifest order: the descriptor at position \<open>i\<close> is the manifest's layer at
  \<open>i\<close> with only its annotations changed, its annotation map is not nil, the
  uncompressed-identity annotation is the diff ID at \<open>i\<close>, and every other annotation
  is the one the manifest had.
\<close>

theorem getLayers_annotates:
  assumes "images_Manifest env d pf (ext w) = (Inr m, x1)"
    and "image_RootFS env d pf x1 = (Inr ds, x2)"
    and "getLayers env d pf w = (Inr ls, w')"
  shows "length ls = length (Layers m) \<and> length ds = length (Layers m) \<and>
         (\<forall>i < length (Layers m).
            ls ! i = (Layers m ! i)\<lparr>Annotations := Annotations (ls ! i)\<rparr> \<and>
            Annotations (ls ! i) \<noteq> None \<and>
            the (Annotations (ls ! i)) ''containerd.io/uncompressed'' = Some (ds ! i) \<and>
            (\<forall>j. j \<noteq> ''containerd.io/uncompressed'' \<longrightarrow>
                 the (Annotations (ls ! i)) j =
                   (case Annotations (Layers m ! i) of None \<Rightarrow> None | Some a \<Rightarrow> a j)))"
proof -
  from assms(3) getLayers_unfold [OF assms(1,2)]
  have len: "length ds = length (Layers m)"
    and ls: "ls = map (\<lambda>i. annotate (Layers m ! i) (ds ! i)) [0..<length ds]"
    by (auto split: if_splits)
  show ?thesis
    using len annotate_fields by (simp add: ls)
qed

theorem getLayers_annotates_witness:
  "images_Manifest exEnv exManifestDesc (Only exPlatform) (ext exWorld) =
     (Inr \<lparr>Config = exConfigDesc, Layers = [exLayerDesc]\<rparr>, ()) \<and>
   image_RootFS exEnv exManifestDesc (Only exPlatform) () = (Inr [''sha256:diff''], ()) \<and>
   getLayers exEnv exManifestDesc (Only exPlatform) exWorld =
     (Inr [annotate exLayerDesc ''sha256:diff''],
      \<lparr>ext = (), trace = [Call_Manifest exManifestDesc, Call_RootFS exManifestDesc]\<rparr>) \<and>
   the (Annotations ([annotate exLayerDesc ''sha256:diff''] ! 0)) ''containerd.io/uncompressed'' =
     Some ([''sha256:diff''] ! 0)"
proof -
  have h1: "images_Manifest exEnv exManifestDesc (Only exPlatform) (ext exWorld) =
              (Inr \<lparr>Config = exConfigDesc, Layers = [exLayerDesc]\<rparr>, ())"
    by (simp add: exEnv_def)
  have h2: "image_RootFS exEnv exManifestDesc (Only exPlatform) () = (Inr [''sha256:diff''], ())"
    by (simp add: exEnv_def)
  have h3: "getLayers exEnv exManifestDesc (Only exPlatform) exWorld =
              (Inr [annotate exLayerDesc ''sha256:diff''],
               \<lparr>ext = (), trace = [Call_Manifest exManifestDesc, Call_RootFS exManifestDesc]\<rparr>)"
    by (simp add: getLayers_def extcall_def exEnv_def exWorld_def)
  show ?thesis
    using h1 h2 h3 getLayers_annotates [OF h1 h2 h3] by simp
qed

text \<open>
  C9. Reconciling a layer sequence that \<^verbatim>\<open>getLayers\<close> has already annotated, against
  the same diff IDs, returns that sequence again: every annotation is overwritten with
  the value it already has.
\<close>

theorem getLayers_idempotent:
  assumes "images_Manifest env d pf (ext w) = (Inr m, x1)"
    and "image_RootFS env d pf x1 = (Inr ds, x2)"
    and "getLayers env d pf w = (Inr ls, w1)"
    and "images_Manifest env' d' pf' (ext w') = (Inr m', x1')"
    and "Layers m' = ls"
    and "image_RootFS env' d' pf' x1' = (Inr ds, x2')"
  shows "fst (getLayers env' d' pf' w') = Inr ls"
proof -
  from assms(3) getLayers_unfold [OF assms(1,2)]
  have len: "length ds = length (Layers m)"
    and ls: "ls = map (\<lambda>i. annotate (Layers m ! i) (ds ! i)) [0..<length ds]"
    by (auto split: if_splits)
  have len': "length ls = length ds" by (simp add: ls)
  have "map (\<lambda>i. annotate (ls ! i) (ds ! i)) [0..<length ds] = ls"
    by (rule nth_equalityI) (simp_all add: ls annotate_idem)
  with len' show ?thesis
    by (simp add: getLayers_unfold [OF assms(4,6)] assms(5))
qed

theorem getLayers_idempotent_witness:
  "images_Manifest exEnv exManifestDesc (Only exPlatform) (ext exWorld) =
     (Inr \<lparr>Config = exConfigDesc, Layers = [exLayerDesc]\<rparr>, ()) \<and>
   image_RootFS exEnv exManifestDesc (Only exPlatform) () = (Inr [''sha256:diff''], ()) \<and>
   getLayers exEnv exManifestDesc (Only exPlatform) exWorld =
     (Inr [annotate exLayerDesc ''sha256:diff''],
      \<lparr>ext = (), trace = [Call_Manifest exManifestDesc, Call_RootFS exManifestDesc]\<rparr>) \<and>
   images_Manifest exAnnotatedEnv exManifestDesc (Only exPlatform) (ext exWorld) =
     (Inr \<lparr>Config = exConfigDesc, Layers = [annotate exLayerDesc ''sha256:diff'']\<rparr>, ()) \<and>
   image_RootFS exAnnotatedEnv exManifestDesc (Only exPlatform) () =
     (Inr [''sha256:diff''], ()) \<and>
   fst (getLayers exAnnotatedEnv exManifestDesc (Only exPlatform) exWorld) =
     Inr [annotate exLayerDesc ''sha256:diff'']"
proof -
  have h1: "images_Manifest exEnv exManifestDesc (Only exPlatform) (ext exWorld) =
              (Inr \<lparr>Config = exConfigDesc, Layers = [exLayerDesc]\<rparr>, ())"
    by (simp add: exEnv_def)
  have h2: "image_RootFS exEnv exManifestDesc (Only exPlatform) () = (Inr [''sha256:diff''], ())"
    by (simp add: exEnv_def)
  have h3: "getLayers exEnv exManifestDesc (Only exPlatform) exWorld =
              (Inr [annotate exLayerDesc ''sha256:diff''],
               \<lparr>ext = (), trace = [Call_Manifest exManifestDesc, Call_RootFS exManifestDesc]\<rparr>)"
    by (simp add: getLayers_def extcall_def exEnv_def exWorld_def)
  have h4: "images_Manifest exAnnotatedEnv exManifestDesc (Only exPlatform) (ext exWorld) =
              (Inr \<lparr>Config = exConfigDesc, Layers = [annotate exLayerDesc ''sha256:diff'']\<rparr>, ())"
    by (simp add: exAnnotatedEnv_def)
  have h5: "Layers \<lparr>Config = exConfigDesc, Layers = [annotate exLayerDesc ''sha256:diff'']\<rparr> =
              [annotate exLayerDesc ''sha256:diff'']"
    by simp
  have h6: "image_RootFS exAnnotatedEnv exManifestDesc (Only exPlatform) () =
              (Inr [''sha256:diff''], ())"
    by (simp add: exAnnotatedEnv_def exEnv_def)
  show ?thesis
    using h1 h2 h3 h4 h6 getLayers_idempotent [OF h1 h2 h3 h4 h5 h6] by simp
qed

section \<open>Properties of resolution\<close>

lemma tryLocalResolve_success:
  assumes "Src_Digest env (Src p) = dg" and "dg \<noteq> []"
    and "ContentStore_Info env dg (ext w) = (Inr sz, x1)"
    and "ContentStore_ReaderAt env (zeroDescriptor\<lparr>Digest := dg, Size := sz\<rparr>) x1 = (Inr ra, x2)"
    and "DetectManifestMediaType env ra x2 = (Inr mt, x3)"
  shows "tryLocalResolve env p w =
           (None,
            p\<lparr>ref := Src_String env (Src p),
              desc := zeroDescriptor\<lparr>Digest := dg, Size := sz, MediaType := mt\<rparr>\<rparr>,
            \<lparr>ext = x3,
             trace = trace w @ [Call_Info dg,
                                Call_StoreReaderAt (zeroDescriptor\<lparr>Digest := dg, Size := sz\<rparr>),
                                Call_Detect]\<rparr>)"
  using assms by (simp add: tryLocalResolve_def extcall_def Let_def zeroDescriptor_def)

lemma tryLocalResolve_env_Resolve [simp]:
  "tryLocalResolve (env\<lparr>Resolver_Resolve := f\<rparr>) p w = tryLocalResolve env p w"
  by (simp add: tryLocalResolve_def extcall_def Let_def cong: sum.case_cong prod.case_cong if_cong)

text \<open>
  C5. When the reference of a new puller carries a digest, the content store knows that
  digest and the media type of the stored blob is detected, \<^verbatim>\<open>resolve\<close> succeeds on the
  local path: the root descriptor has that digest, the size the store reports and the
  detected media type. The calls made are the three of the local path, and the outcome is
  the same whatever the remote resolver would do.
\<close>

theorem resolve_local:
  assumes "\<not> resolveOnce p" and "resolveErr p = None"
    and "Src_Digest env (Src p) = dg" and "dg \<noteq> []"
    and "ContentStore_Info env dg (ext w) = (Inr sz, x1)"
    and "ContentStore_ReaderAt env (zeroDescriptor\<lparr>Digest := dg, Size := sz\<rparr>) x1 = (Inr ra, x2)"
    and "DetectManifestMediaType env ra x2 = (Inr mt, x3)"
  shows "resolve env p w =
           (None,
            p\<lparr>ref := Src_String env (Src p),
              desc := zeroDescriptor\<lparr>Digest := dg, Size := sz, MediaType := mt\<rparr>,
              resolveOnce := True\<rparr>,
            \<lparr>ext = x3,
             trace = trace w @ [Call_Info dg,
                                Call_StoreReaderAt (zeroDescriptor\<lparr>Digest := dg, Size := sz\<rparr>),
                                Call_Detect]\<rparr>)
         \<and> (\<forall>f. resolve (env\<lparr>Resolver_Resolve := f\<rparr>) p w = resolve env p w)"
proof -
  note loc = tryLocalResolve_success [OF assms(3-7)]
  have "\<And>f. resolve (env\<lparr>Resolver_Resolve := f\<rparr>) p w = resolve env p w"
    using assms(1) by (simp add: resolve_def loc)
  moreover have "resolve env p w =
           (None,
            p\<lparr>ref := Src_String env (Src p),
              desc := zeroDescriptor\<lparr>Digest := dg, Size := sz, MediaType := mt\<rparr>,
              resolveOnce := True\<rparr>,
            \<lparr>ext = x3,
             trace = trace w @ [Call_Info dg,
                                Call_StoreReaderAt (zeroDescriptor\<lparr>Digest := dg, Size := sz\<rparr>),
                                Call_Detect]\<rparr>)"
    using assms(1,2) by (simp add: resolve_def loc)
  ultimately show ?thesis by blast
qed

theorem resolve_local_witness:
  "\<not> resolveOnce exPuller \<and> resolveErr exPuller = None \<and>
   Src_Digest exEnv (Src exPuller) = ''sha256:m'' \<and> ''sha256:m'' \<noteq> [] \<and>
   ContentStore_Info exEnv ''sha256:m'' (ext exWorld) = (Inr 7, ()) \<and>
   ContentStore_ReaderAt exEnv (zeroDescriptor\<lparr>Digest := ''sha256:m'', Size := 7\<rparr>) () =
     (Inr ''manifest'', ()) \<and>
   DetectManifestMediaType exEnv ''manifest'' () = (Inr MediaTypeDockerSchema2Manifest, ()) \<and>
   Resolver_Resolve exEnv (Src_String exEnv (Src exPuller)) () =
     (Inl (ErrExternal ''resolve refused''), ()) \<and>
   resolve exEnv exPuller exWorld =
     (None,
      exPuller\<lparr>ref := ''docker.io/library/busybox@sha256:m'', desc := exManifestDesc,
               resolveOnce := True\<rparr>,
      \<lparr>ext = (),
       trace = [Call_Info ''sha256:m'',
                Call_StoreReaderAt (zeroDescriptor\<lparr>Digest := ''sha256:m'', Size := 7\<rparr>),
                Call_Detect]\<rparr>)"
proof -
  have h1: "\<not> resolveOnce exPuller" and h2: "resolveErr exPuller = None"
    by (simp_all add: exPuller_def newPuller_def)
  have h3: "Src_Digest exEnv (Src exPuller) = ''sha256:m''"
    by (simp add: exEnv_def exPuller_def newPuller_def)
  have h4: "''sha256:m'' \<noteq> []" by simp
  have h5: "ContentStore_Info exEnv ''sha256:m'' (ext exWorld) = (Inr 7, ())"
    by (simp add: exEnv_def)
  have h6: "ContentStore_ReaderAt exEnv (zeroDescriptor\<lparr>Digest := ''sha256:m'', Size := 7\<rparr>) () =
              (Inr ''manifest'', ())"
    by (simp add: exEnv_def)
  have h7: "DetectManifestMediaType exEnv ''manifest'' () = (Inr MediaTypeDockerSchema2Manifest, ())"
    by (simp add: exEnv_def)
  have h8: "Resolver_Resolve exEnv (Src_String exEnv (Src exPuller)) () =
              (Inl (ErrExternal ''resolve refused''), ())"
    by (simp add: exEnv_def)
  have h9: "Src_String exEnv (Src exPuller) = ''docker.io/library/busybox@sha256:m''"
    by (simp add: exEnv_def exPuller_def newPuller_def)
  show ?thesis
    using h1 h2 h3 h5 h6 h7 h8 h9 resolve_local [OF h1 h2 h3 h4 h5 h6 h7]
    by (simp add: exWorld_def exManifestDesc_def zeroDescriptor_def)
qed

text \<open>
  C6. When the local path of a new puller fails, for whatever reason, \<^verbatim>\<open>resolve\<close> asks
  the remote resolver and its outcome is the resolver's: the resolver's error is returned
  and stored, or the resolver's ref and descriptor are stored and no error is returned.
  The error of the local path appears nowhere in the outcome.
\<close>

theorem resolve_falls_through:
  assumes "\<not> resolveOnce p" and "resolveErr p = None"
    and "tryLocalResolve env p w = (Some e, p1, w1)"
    and "Resolver_Resolve env (Src_String env (Src p)) (ext w1) = (rr, x2)"
  shows "resolve env p w =
           (case rr of
              Inl err \<Rightarrow>
                (Some err, p1\<lparr>resolveErr := Some err, resolveOnce := True\<rparr>,
                 \<lparr>ext = x2, trace = trace w1 @ [Call_Resolve (Src_String env (Src p))]\<rparr>)
            | Inr (r, d) \<Rightarrow>
                (None, p1\<lparr>desc := d, ref := r, resolveOnce := True\<rparr>,
                 \<lparr>ext = x2, trace = trace w1 @ [Call_Resolve (Src_String env (Src p))]\<rparr>))"
proof -
  have src: "Src p1 = Src p" and err: "resolveErr p1 = resolveErr p"
    using assms(3)
    by (auto simp: tryLocalResolve_def extcall_def Let_def split: if_splits prod.splits sum.splits)
  show ?thesis
    using assms by (simp add: resolve_def extcall_def src err split: sum.splits)
qed

theorem resolve_falls_through_witness:
  "\<not> resolveOnce exTagPuller \<and> resolveErr exTagPuller = None \<and>
   tryLocalResolve exEnv exTagPuller exWorld =
     (Some (ErrorsNew ''empty digest''), exTagPuller, exWorld) \<and>
   Resolver_Resolve exEnv (Src_String exEnv (Src exTagPuller)) (ext exWorld) =
     (Inl (ErrExternal ''resolve refused''), ()) \<and>
   resolve exEnv exTagPuller exWorld =
     (Some (ErrExternal ''resolve refused''),
      exTagPuller\<lparr>resolveErr := Some (ErrExternal ''resolve refused''), resolveOnce := True\<rparr>,
      \<lparr>ext = (), trace = [Call_Resolve ''docker.io/library/busybox:latest'']\<rparr>)"
proof -
  have h1: "\<not> resolveOnce exTagPuller" and h2: "resolveErr exTagPuller = None"
    by (simp_all add: exTagPuller_def newPuller_def)
  have h3: "tryLocalResolve exEnv exTagPuller exWorld =
              (Some (ErrorsNew ''empty digest''), exTagPuller, exWorld)"
    by (simp add: tryLocalResolve_def Let_def exEnv_def exTagPuller_def newPuller_def
        zeroDescriptor_def)
  have h4: "Resolver_Resolve exEnv (Src_String exEnv (Src exTagPuller)) (ext exWorld) =
              (Inl (ErrExternal ''resolve refused''), ())"
    by (simp add: exEnv_def)
  have h5: "Src_String exEnv (Src exTagPuller) = ''docker.io/library/busybox:latest''"
    by (simp add: exEnv_def exTagPuller_def newPuller_def)
  show ?thesis
    using h1 h2 h3 h4 h5 resolve_falls_through [OF h1 h2 h3 h4]
    by (simp add: exWorld_def)
qed

lemma tryLocalResolve_fails:
  "fst (tryLocalResolve env p w) \<noteq> None \<longleftrightarrow>
     Src_Digest env (Src p) = [] \<or>
     (\<exists>e x1. ContentStore_Info env (Src_Digest env (Src p)) (ext w) = (Inl e, x1)) \<or>
     (\<exists>sz x1 e x2. ContentStore_Info env (Src_Digest env (Src p)) (ext w) = (Inr sz, x1) \<and>
        ContentStore_ReaderAt env (zeroDescriptor\<lparr>Digest := Src_Digest env (Src p), Size := sz\<rparr>) x1 = (Inl e, x2)) \<or>
     (\<exists>sz x1 ra x2 e x3. ContentStore_Info env (Src_Digest env (Src p)) (ext w) = (Inr sz, x1) \<and>
        ContentStore_ReaderAt env (zeroDescriptor\<lparr>Digest := Src_Digest env (Src p), Size := sz\<rparr>) x1 = (Inr ra, x2) \<and>
        DetectManifestMediaType env ra x2 = (Inl e, x3))"
  by (auto simp: tryLocalResolve_def extcall_def Let_def zeroDescriptor_def split: if_splits prod.splits sum.splits)


lemma resolve_done: "resolveOnce p \<Longrightarrow> resolve env p w = (resolveErr p, p, w)"
  by (simp add: resolve_def)

section \<open>Properties of PullManifests\<close>

subsection \<open>What the stages leave unchanged\<close>

lemma foldl_partitionStep_frame:
  "desc (foldl partitionStep p ds) = desc p"
  "Platform_p (foldl partitionStep p ds) = Platform_p p"
  "ref (foldl partitionStep p ds) = ref p"
  "resolveOnce (foldl partitionStep p ds) = resolveOnce p"
  "resolveErr (foldl partitionStep p ds) = resolveErr p"
  "Src (foldl partitionStep p ds) = Src p"
  "layers (foldl partitionStep p ds) = layers p"
  by (induction ds arbitrary: p; simp add: partitionStep_def Let_def)+

lemma foldl_partitionStep_nonlayers:
  "nonlayers (foldl partitionStep p ds) = nonlayers p @ ds"
  by (induction ds arbitrary: p) (simp_all add: partitionStep_def Let_def)

lemma foldl_partitionStep_configDesc:
  "configDesc (foldl partitionStep p ds) =
     (if \<exists>d \<in> set ds. isConfigMediaType (MediaType d)
      then last (filter (\<lambda>d. isConfigMediaType (MediaType d)) ds) else configDesc p)"
proof (induction ds arbitrary: p)
  case Nil
  show ?case by simp
next
  case (Cons d ds)
  show ?case
    by (simp add: Cons.IH) (auto simp: partitionStep_def Let_def filter_empty_conv)
qed

lemma resolve_frame:
  assumes "resolve env p w = (r, p1, w1)"
  shows "nonlayers p1 = nonlayers p \<and> configDesc p1 = configDesc p \<and> layers p1 = layers p \<and>
         Src p1 = Src p \<and> Platform_p p1 = Platform_p p"
  using assms
  by (auto simp: resolve_def tryLocalResolve_def extcall_def Let_def
      split: if_splits prod.splits sum.splits option.splits)

lemma convertSchema1_frame:
  assumes "convertSchema1 fuel env p f pf s = Some (r, p1, w1)"
  shows "\<exists>d. p1 = p\<lparr>desc := d\<rparr>"
proof (cases "MediaType (desc p) = MediaTypeDockerSchema1Manifest")
  case False
  with assms have "p1 = p" by (simp add: convertSchema1_def)
  then have "p1 = p\<lparr>desc := desc p\<rparr>" by simp
  then show ?thesis ..
next
  case True
  obtain d e w3 where c: "extcall Call_Convert (schema1_Convert env f) (snd s) = ((d, e), w3)"
    by (metis surj_pair)
  with assms True have "p1 = p\<lparr>desc := d\<rparr>"
    by (cases e) (auto simp: convertSchema1_def split: option.splits prod.splits)
  then show ?thesis ..
qed

lemma walk_frame_desc:
  assumes "walk fuel env p w = Some (r, p1, w1)"
  shows "\<exists>d. p1 = p\<lparr>desc := d\<rparr>"
proof -
  have triv: "p = p\<lparr>desc := desc p\<rparr>" by simp
  obtain rf w0 where f: "extcall (Call_Fetcher (ref p)) (Resolver_Fetcher env (ref p)) w = (rf, w0)"
    by (metis surj_pair)
  show ?thesis
  proof (cases rf)
    case (Inl err)
    with assms f have "p1 = p" by (simp add: walk_def)
    with triv show ?thesis by metis
  next
    case (Inr fetcher)
    show ?thesis
    proof (cases "walkHandlers env p fetcher (Only (Platform_p p))")
      case (Inl err)
      with assms f Inr have "p1 = p" by (simp add: walk_def)
      with triv show ?thesis by metis
    next
      case hs: (Inr handlers)
      show ?thesis
      proof (cases "Dispatch fuel (Handlers handlers) [desc p] (Some [], w0)")
        case None
        with assms f Inr hs show ?thesis by (simp add: walk_def)
      next
        case (Some a)
        obtain e s2 where a: "a = (e, s2)" by (cases a)
        show ?thesis
        proof (cases e)
          case (Some err)
          with assms f Inr hs \<open>Dispatch fuel (Handlers handlers) [desc p] (Some [], w0) = Some a\<close> a
          have "p1 = p" by (simp add: walk_def)
          with triv show ?thesis by metis
        next
          case None
          with assms f Inr hs \<open>Dispatch fuel (Handlers handlers) [desc p] (Some [], w0) = Some a\<close> a
          have "convertSchema1 fuel env p fetcher (Only (Platform_p p)) s2 = Some (r, p1, w1)"
            by (simp add: walk_def)
          then show ?thesis by (rule convertSchema1_frame)
        qed
      qed
    qed
  qed
qed

lemma walk_frame:
  assumes "walk fuel env p w = Some (r, p1, w1)"
  shows "nonlayers p1 = nonlayers p \<and> configDesc p1 = configDesc p \<and> layers p1 = layers p \<and>
         Src p1 = Src p \<and> Platform_p p1 = Platform_p p \<and> ref p1 = ref p \<and>
         resolveOnce p1 = resolveOnce p \<and> resolveErr p1 = resolveErr p"
  using walk_frame_desc [OF assms] by auto


lemma PullManifests_stages:
  assumes "resolve env p w = (None, p1, w1)"
    and "walk fuel env p1 w1 = Some (Inr md, p2, w2)"
  shows "PullManifests fuel env p w =
     (let p3 = foldl partitionStep p2
                 (mapRange env (ext w2) (case md of None \<Rightarrow> [] | Some m \<Rightarrow> m))
      in case getLayers env (desc p2) (Only (Platform_p p2)) w2 of
           (Inl err, w3) \<Rightarrow> Some (Inl err, p3\<lparr>layers := []\<rparr>, w3)
         | (Inr ls, w3) \<Rightarrow>
             Some (Inr \<lparr>Ref = ref p2, MainManifestDesc = desc p2,
                        ConfigDesc = configDesc p3, Nonlayers = nonlayers p3,
                        Remote = \<lparr>Descriptors = ls\<rparr>\<rparr>,
                   p3\<lparr>layers := ls\<rparr>, w3))"
  using assms
  by (simp add: PullManifests_def Let_def foldl_partitionStep_frame split: prod.splits sum.splits)


lemma PullManifests_result:
  assumes "resolve env p w = (None, p1, w1)"
    and "walk fuel env p1 w1 = Some (Inr (Some m), p2, w2)"
    and "PullManifests fuel env p w = Some (Inr r, p', w')"
  shows "Nonlayers r = nonlayers (foldl partitionStep p2 (mapRange env (ext w2) m)) \<and>
         ConfigDesc r = configDesc (foldl partitionStep p2 (mapRange env (ext w2) m)) \<and>
         Ref r = ref p2 \<and> MainManifestDesc r = desc p2 \<and>
         layers p' = Descriptors (Remote r) \<and> desc p' = desc p2 \<and>
         getLayers env (desc p2) (Only (Platform_p p2)) w2 = (Inr (Descriptors (Remote r)), w')"
proof -
  obtain rg wg where g: "getLayers env (desc p2) (Only (Platform_p p2)) w2 = (rg, wg)"
    by (cases "getLayers env (desc p2) (Only (Platform_p p2)) w2")
  show ?thesis
  proof (cases rg)
    case (Inl err)
    with assms(3) g show ?thesis
      by (simp add: PullManifests_stages [OF assms(1,2)] Let_def)
  next
    case (Inr ls)
    with assms(3) g show ?thesis
      by (auto simp: PullManifests_stages [OF assms(1,2)] Let_def foldl_partitionStep_frame)
  qed
qed


subsection \<open>The example image, evaluated\<close>

lemma ex_resolved:
  "resolve exEnv exPuller exWorld = (None, exResolved, exResolvedWorld)"
  by (simp add: pull_defs ex_defs mediaType_defs Let_def)

lemma ex_walked:
  "walk 5 exEnv exResolved exResolvedWorld = Some (Inr (Some exMetadata), exResolved, exWalkedWorld)"
  by (simp add: pull_defs ex_defs mediaType_defs Let_def)

lemma ex_first_call:
  "PullManifests 5 exEnv exPuller exWorld = Some (Inr exResult1, exPuller1, exWorld1)"
  by (simp add: pull_defs ex_defs mediaType_defs Let_def)


lemma ex_mismatch_resolved:
  "resolve exMismatchEnv exPuller exWorld = (None, exResolved, exResolvedWorld)"
  by (simp add: pull_defs ex_defs mediaType_defs Let_def)

lemma ex_mismatch_walked:
  "walk 5 exMismatchEnv exResolved exResolvedWorld =
     Some (Inr (Some exMetadata), exResolved, exWalkedWorld)"
  by (simp add: pull_defs ex_defs mediaType_defs Let_def)







subsection \<open>Mismatch of rootfs history and manifest layers\<close>

text \<open>
  C1. When resolution and the walk have succeeded and the rootfs history read for the
  root descriptor has another length than the manifest's layer list, \<^verbatim>\<open>getLayers\<close>
  fails with the mismatch error, which carries both sequences, and \<^verbatim>\<open>PullManifests\<close>
  returns that error and no result; the layer list it leaves in the puller is empty.
\<close>

theorem PullManifests_mismatch:
  assumes "resolve env p w = (None, p1, w1)"
    and "walk fuel env p1 w1 = Some (Inr md, p2, w2)"
    and "images_Manifest env (desc p2) (Only (Platform_p p2)) (ext w2) = (Inr m, x3)"
    and "image_RootFS env (desc p2) (Only (Platform_p p2)) x3 = (Inr ds, x4)"
    and "length ds \<noteq> length (Layers m)"
  shows "fst (getLayers env (desc p2) (Only (Platform_p p2)) w2) =
           Inl (ErrMismatched ds (Layers m)) \<and>
         (\<exists>p' w'. PullManifests fuel env p w = Some (Inl (ErrMismatched ds (Layers m)), p', w') \<and>
                   layers p' = [])"
proof -
  have g: "getLayers env (desc p2) (Only (Platform_p p2)) w2 =
             (Inl (ErrMismatched ds (Layers m)),
              \<lparr>ext = x4, trace = trace w2 @ [Call_Manifest (desc p2), Call_RootFS (desc p2)]\<rparr>)"
    using assms(5) by (simp add: getLayers_unfold [OF assms(3,4)])
  show ?thesis
    by (simp add: PullManifests_stages [OF assms(1,2)] g Let_def)
qed

theorem PullManifests_mismatch_witness:
  "resolve exMismatchEnv exPuller exWorld = (None, exResolved, exResolvedWorld) \<and>
   walk 5 exMismatchEnv exResolved exResolvedWorld =
     Some (Inr (Some exMetadata), exResolved, exWalkedWorld) \<and>
   images_Manifest exMismatchEnv (desc exResolved) (Only (Platform_p exResolved))
       (ext exWalkedWorld) =
     (Inr \<lparr>Config = exConfigDesc, Layers = [exLayerDesc]\<rparr>, ()) \<and>
   image_RootFS exMismatchEnv (desc exResolved) (Only (Platform_p exResolved)) () =
     (Inr [''sha256:diff'', ''sha256:diff2''], ()) \<and>
   length [''sha256:diff'', ''sha256:diff2''] \<noteq>
     length (Layers \<lparr>Config = exConfigDesc, Layers = [exLayerDesc]\<rparr>) \<and>
   fst (getLayers exMismatchEnv (desc exResolved) (Only (Platform_p exResolved)) exWalkedWorld) =
     Inl (ErrMismatched [''sha256:diff'', ''sha256:diff2''] [exLayerDesc]) \<and>
   (\<exists>p' w'. PullManifests 5 exMismatchEnv exPuller exWorld =
               Some (Inl (ErrMismatched [''sha256:diff'', ''sha256:diff2''] [exLayerDesc]), p', w') \<and>
             layers p' = [])"
proof -
  have h3: "images_Manifest exMismatchEnv (desc exResolved) (Only (Platform_p exResolved))
              (ext exWalkedWorld) =
            (Inr \<lparr>Config = exConfigDesc, Layers = [exLayerDesc]\<rparr>, ())"
    by (simp add: exMismatchEnv_def exEnv_def)
  have h4: "image_RootFS exMismatchEnv (desc exResolved) (Only (Platform_p exResolved)) () =
            (Inr [''sha256:diff'', ''sha256:diff2''], ())"
    by (simp add: exMismatchEnv_def)
  have h5: "length [''sha256:diff'', ''sha256:diff2''] \<noteq>
            length (Layers \<lparr>Config = exConfigDesc, Layers = [exLayerDesc]\<rparr>)"
    by simp
  show ?thesis
    using ex_mismatch_resolved ex_mismatch_walked h3 h4
      PullManifests_mismatch [OF ex_mismatch_resolved ex_mismatch_walked h3 h4 h5]
    by simp
qed

subsection \<open>Reading through the fetcher\<close>

text \<open>
  C10. \<^verbatim>\<open>ReaderAt\<close> first resolves and returns the resolution error if there is one;
  otherwise it asks the resolver for a fetcher for the stored ref and serves the
  descriptor through it. After resolution the only calls are those two. On a puller
  that is already resolved the content store has no part in the outcome.
\<close>

theorem ReaderAt_through_fetcher:
  assumes "resolve env p w = (r, p1, w1)"
  shows "ReaderAt env p d w =
           (case r of
              Some err \<Rightarrow> (Inl err, p1, w1)
            | None \<Rightarrow>
                (case Resolver_Fetcher env (ref p1) (ext w1) of
                   (Inl err, x2) \<Rightarrow>
                     (Inl err, p1, \<lparr>ext = x2, trace = trace w1 @ [Call_Fetcher (ref p1)]\<rparr>)
                 | (Inr fetcher, x2) \<Rightarrow>
                     (case FromFetcher_ReaderAt env fetcher d x2 of
                        (rd, x3) \<Rightarrow>
                          (rd, p1,
                           \<lparr>ext = x3,
                            trace = trace w1 @ [Call_Fetcher (ref p1), Call_FetcherReaderAt d]\<rparr>))))
         \<and> (resolveOnce p \<longrightarrow> w1 = w \<and>
              (\<forall>fi fr. ReaderAt (env\<lparr>ContentStore_Info := fi, ContentStore_ReaderAt := fr\<rparr>) p d w =
                        ReaderAt env p d w))"
  using assms
  by (auto simp: ReaderAt_def extcall_def resolve_done split: option.splits prod.splits sum.splits)

theorem ReaderAt_through_fetcher_witness:
  "resolve exEnv exPuller exWorld = (None, exResolved, exResolvedWorld) \<and>
   ReaderAt exEnv exPuller exLayerDesc exWorld =
     (Inr (exRef @ ''/sha256:l''), exResolved,
      \<lparr>ext = (),
       trace = trace exResolvedWorld @ [Call_Fetcher exRef, Call_FetcherReaderAt exLayerDesc]\<rparr>) \<and>
   resolve exEnv exResolved exResolvedWorld = (None, exResolved, exResolvedWorld) \<and>
   resolveOnce exResolved \<and>
   ReaderAt exEnv exResolved exLayerDesc exResolvedWorld =
     (Inr (exRef @ ''/sha256:l''), exResolved,
      \<lparr>ext = (),
       trace = trace exResolvedWorld @ [Call_Fetcher exRef, Call_FetcherReaderAt exLayerDesc]\<rparr>) \<and>
   ReaderAt (exEnv\<lparr>ContentStore_Info := (\<lambda>dg x. (Inl (ErrExternal ''gone''), x)),
                   ContentStore_ReaderAt := (\<lambda>d x. (Inl (ErrExternal ''gone''), x))\<rparr>)
       exResolved exLayerDesc exResolvedWorld =
     ReaderAt exEnv exResolved exLayerDesc exResolvedWorld"
proof -
  have once: "resolveOnce exResolved" by (simp add: exResolved_def)
  have r2: "resolve exEnv exResolved exResolvedWorld = (None, exResolved, exResolvedWorld)"
    by (simp add: resolve_def exResolved_def exPuller_def newPuller_def)
  have f: "Resolver_Fetcher exEnv (ref exResolved) (ext exResolvedWorld) = (Inr exRef, ())"
    "FromFetcher_ReaderAt exEnv exRef exLayerDesc () = (Inr (exRef @ ''/sha256:l''), ())"
    by (simp_all add: exEnv_def exResolved_def exLayerDesc_def zeroDescriptor_def)
  have refr: "ref exResolved = exRef" by (simp add: exResolved_def)
  show ?thesis
    using ex_resolved r2 once f refr
      ReaderAt_through_fetcher [OF ex_resolved, of exLayerDesc]
      ReaderAt_through_fetcher [OF r2, of exLayerDesc]
    by simp
qed

section \<open>Properties of the handler chain\<close>

lemma traceGrows_refl: "traceGrows Q w w"
  by (simp add: traceGrows_def)

lemma traceGrows_trans: "traceGrows Q w w1 \<Longrightarrow> traceGrows Q w1 w2 \<Longrightarrow> traceGrows Q w w2"
  by (auto simp: traceGrows_def)

lemma extcall_traceGrows: "Q c \<Longrightarrow> extcall c f w = (r, w') \<Longrightarrow> traceGrows Q w w'"
  by (auto simp: extcall_def traceGrows_def split: prod.splits)

lemma onWorld_traceGrows:
  assumes "onWorld n h d s = (r, s')" and "Q (Call_Handle n d)"
  shows "fst s' = fst s \<and> traceGrows Q (snd s) (snd s')"
  using assms by (auto simp: onWorld_def dest: extcall_traceGrows split: prod.splits)

lemma onMetadata_world: "onMetadata h d s = (r, s') \<Longrightarrow> snd s' = snd s"
  by (auto simp: onMetadata_def split: prod.splits)

lemma Handlers_preserves:
  assumes "\<And>h s r s'. h \<in> set hs \<Longrightarrow> I s \<Longrightarrow> h d s = (r, s') \<Longrightarrow> I s'"
  shows "I s \<Longrightarrow> Handlers hs d s = (r, s') \<Longrightarrow> I s'"
  using assms
proof (induction hs arbitrary: s r s')
  case Nil
  then show ?case by simp
next
  case (Cons h hs)
  obtain r1 s1 where h: "h d s = (r1, s1)" by (cases "h d s")
  have "h \<in> set (h # hs)" by simp
  then have I1: "I s1" using Cons.prems(1) h by (rule Cons.prems(3))
  show ?case
  proof (cases r1)
    case (Inl err)
    with Cons.prems(2) h have "s' = s1" by (simp split: if_splits)
    with I1 show ?thesis by simp
  next
    case (Inr ch)
    obtain r2 s2 where t: "Handlers hs d s1 = (r2, s2)" by (cases "Handlers hs d s1")
    have "I s2"
    proof (rule Cons.IH [OF I1 t])
      fix h' s r s'
      assume "h' \<in> set hs" and "I s" and "h' d s = (r, s')"
      then show "I s'" using Cons.prems(3) [of h' s r s'] by simp
    qed
    moreover from Cons.prems(2) h Inr t have "s' = s2" by (simp split: sum.splits)
    ultimately show ?thesis by simp
  qed
qed

lemma Dispatch_preserves:
  "(\<And>d s r s'. I s \<Longrightarrow> h d s = (r, s') \<Longrightarrow> I s') \<Longrightarrow>
   I s \<Longrightarrow> Dispatch n h ds s = Some (r, s') \<Longrightarrow> I s'"
proof (induction n h ds s arbitrary: r s' rule: Dispatch.induct)
  case (1 n h s)
  then show ?case by simp
next
  case (2 n h d ds s)
  note step = "2.prems"(1)
  obtain res s1 where hd: "h d s = (res, s1)" by (cases "h d s")
  have I1: "I s1" using step [OF "2.prems"(2) hd] .
  show ?case
  proof (cases res)
    case (Inl err)
    show ?thesis
    proof (cases "isErrSkipDesc (Cause err)")
      case True
      have "Dispatch n h ds s1 = Some (r, s')"
        using "2.prems"(3) hd Inl True by simp
      then show ?thesis
        using "2.IH"(1) [OF hd [symmetric] Inl True step I1] by simp
    next
      case False
      then show ?thesis using "2.prems"(3) hd Inl I1 by simp
    qed
  next
    case (Inr children)
    show ?thesis
    proof (cases "children = []")
      case True
      have "Dispatch n h ds s1 = Some (r, s')"
        using "2.prems"(3) hd Inr True by simp
      then show ?thesis
        using "2.IH"(2) [OF hd [symmetric] Inr True step I1] by simp
    next
      case False
      show ?thesis
      proof (cases n)
        case 0
        then show ?thesis using "2.prems"(3) hd Inr False by simp
      next
        case (Suc m)
        show ?thesis
        proof (cases "Dispatch m h children s1")
          case None
          then show ?thesis using "2.prems"(3) hd Inr False Suc by simp
        next
          case (Some a)
          obtain e s2 where a: "a = (e, s2)" by (cases a)
          have I2: "I s2"
            using "2.IH"(3) [OF hd [symmetric] Inr False Suc step I1] Some a by simp
          show ?thesis
          proof (cases e)
            case None
            have "Dispatch n h ds s2 = Some (r, s')"
              using "2.prems"(3) hd Inr False Suc Some a None by simp
            then show ?thesis
              using "2.IH"(4) [OF hd [symmetric] Inr False Suc Some a [symmetric] None step I2]
              by simp
          next
            case (Some err)
            then show ?thesis
              using "2.prems"(3) hd Inr False Suc \<open>Dispatch m h children s1 = Some a\<close> a I2
              by simp
          qed
        qed
      qed
    qed
  qed
qed

lemma Handlers_first_no_children:
  assumes "h d s = (Inr [], s1)"
  shows "Handlers (h # hs) d s = Handlers hs d s1"
proof -
  obtain r2 s2 where t: "Handlers hs d s1 = (r2, s2)" by (cases "Handlers hs d s1")
  show ?thesis using assms t by (cases r2) simp_all
qed

lemma chain_layer:
  assumes "isLayerMediaType (MediaType d)"
  shows "Handlers (normalHandlers env f pf dsl) d s = (Inl ErrSkipDesc, s)"
  using assms by (simp add: normalHandlers_def onMetadata_def filterLayerBlobs_def)

lemma chain_nonlayer:
  assumes "\<not> isLayerMediaType (MediaType d)"
  shows "Handlers (normalHandlers env f pf dsl) d (Some m, w) =
           Handlers (tl (normalHandlers env f pf dsl)) d (Some (AList.update (Digest d) d m), w)"
proof -
  have "onMetadata filterLayerBlobs d (Some m, w) = (Inr [], (Some (AList.update (Digest d) d m), w))"
    using assms by (simp add: onMetadata_def filterLayerBlobs_def)
  then show ?thesis
    unfolding normalHandlers_def list.sel by (rule Handlers_first_no_children)
qed

lemma collected_update:
  assumes "collected m (Some m1)" and "\<not> isLayerMediaType (MediaType d)"
  shows "collected m (Some (AList.update (Digest d) d m1))"
  using assms by (auto simp: collected_def update_conv')

lemma chain_step:
  assumes I: "collected m (fst s) \<and> traceGrows (\<lambda>c. \<not> handlesLayer c) w (snd s)"
    and run: "Handlers (normalHandlers env f pf dsl) d s = (r, s')"
  shows "collected m (fst s') \<and> traceGrows (\<lambda>c. \<not> handlesLayer c) w (snd s')"
proof (cases "isLayerMediaType (MediaType d)")
  case True
  with run have "s' = s" by (simp add: chain_layer)
  with I show ?thesis by simp
next
  case False
  from I obtain m1 where m1: "fst s = Some m1" by (auto simp: collected_def)
  then have s: "s = (Some m1, snd s)" by (cases s) simp
  let ?s1 = "(Some (AList.update (Digest d) d m1), snd s)"
  have run': "Handlers (tl (normalHandlers env f pf dsl)) d ?s1 = (r, s')"
    using run chain_nonlayer [OF False, of env f pf dsl m1 "snd s"] s by simp
  have I1: "collected m (fst ?s1) \<and> traceGrows (\<lambda>c. \<not> handlesLayer c) w (snd ?s1)"
    using I m1 collected_update [OF _ False, of m m1] by simp
  show ?thesis
  proof (rule Handlers_preserves [where I = "\<lambda>s. collected m (fst s) \<and>
            traceGrows (\<lambda>c. \<not> handlesLayer c) w (snd s)", OF _ I1 run'])
    fix h s r s'
    assume h: "h \<in> set (tl (normalHandlers env f pf dsl))"
      and Is: "collected m (fst s) \<and> traceGrows (\<lambda>c. \<not> handlesLayer c) w (snd s)"
      and hs: "h d s = (r, s')"
    from h obtain n g where "h = onWorld n g"
      by (auto simp: normalHandlers_def)
    with hs have "onWorld n g d s = (r, s')" by simp
    from onWorld_traceGrows [OF this, of "\<lambda>c. \<not> handlesLayer c"] False
    have "fst s' = fst s \<and> traceGrows (\<lambda>c. \<not> handlesLayer c) (snd s) (snd s')" by simp
    with Is show "collected m (fst s') \<and> traceGrows (\<lambda>c. \<not> handlesLayer c) w (snd s')"
      by (auto intro: traceGrows_trans)
  qed
qed

lemma collected_refl: "collected m (Some m)"
  by (simp add: collected_def)

text \<open>
  C3. On a descriptor with a layer media type the filter returns the skip signal and
  leaves the metadata map alone; the whole chain then returns the skip signal with the
  state unchanged, so no later handler is called, and the dispatch goes on with the
  siblings without descending. On any other descriptor the filter stores the descriptor
  under its digest and the rest of the chain runs on it. Over a whole dispatch of the
  normal chain, no call hands a layer descriptor to a handler of a collaborator, and
  each new entry of the metadata map is a non-layer descriptor under its own digest.
\<close>

theorem filterLayerBlobs_skips_layers:
  "(isLayerMediaType (MediaType d) \<longrightarrow>
      filterLayerBlobs d md = (Inl ErrSkipDesc, md) \<and>
      Handlers (normalHandlers env f pf dsl) d (md, w) = (Inl ErrSkipDesc, (md, w)) \<and>
      Dispatch n (Handlers (normalHandlers env f pf dsl)) (d # ds) (md, w) =
        Dispatch n (Handlers (normalHandlers env f pf dsl)) ds (md, w)) \<and>
   (\<not> isLayerMediaType (MediaType d) \<longrightarrow>
      filterLayerBlobs d (Some m) = (Inr [], Some (AList.update (Digest d) d m)) \<and>
      map_of (AList.update (Digest d) d m) (Digest d) = Some d \<and>
      Handlers (normalHandlers env f pf dsl) d (Some m, w) =
        Handlers (tl (normalHandlers env f pf dsl)) d (Some (AList.update (Digest d) d m), w)) \<and>
   (\<forall>r md' w'.
      Dispatch n (Handlers (normalHandlers env f pf dsl)) ds (Some m, w) = Some (r, (md', w')) \<longrightarrow>
      traceGrows (\<lambda>c. \<not> handlesLayer c) w w' \<and> collected m md')"
proof (intro conjI impI allI)
  assume L: "isLayerMediaType (MediaType d)"
  then show "filterLayerBlobs d md = (Inl ErrSkipDesc, md)"
    by (simp add: filterLayerBlobs_def)
  from L show "Handlers (normalHandlers env f pf dsl) d (md, w) = (Inl ErrSkipDesc, (md, w))"
    by (rule chain_layer)
  from L show "Dispatch n (Handlers (normalHandlers env f pf dsl)) (d # ds) (md, w) =
        Dispatch n (Handlers (normalHandlers env f pf dsl)) ds (md, w)"
    by (simp add: chain_layer)
next
  assume N: "\<not> isLayerMediaType (MediaType d)"
  then show "filterLayerBlobs d (Some m) = (Inr [], Some (AList.update (Digest d) d m))"
    by (simp add: filterLayerBlobs_def)
  show "map_of (AList.update (Digest d) d m) (Digest d) = Some d"
    by (simp add: update_conv')
  from N show "Handlers (normalHandlers env f pf dsl) d (Some m, w) =
        Handlers (tl (normalHandlers env f pf dsl)) d (Some (AList.update (Digest d) d m), w)"
    by (rule chain_nonlayer)
next
  fix r md' w'
  assume D: "Dispatch n (Handlers (normalHandlers env f pf dsl)) ds (Some m, w) = Some (r, (md', w'))"
  have "collected m (fst (md', w')) \<and> traceGrows (\<lambda>c. \<not> handlesLayer c) w (snd (md', w'))"
  proof (rule Dispatch_preserves [where I = "\<lambda>s. collected m (fst s) \<and>
            traceGrows (\<lambda>c. \<not> handlesLayer c) w (snd s)", OF _ _ D])
    show "collected m (fst (Some m, w)) \<and> traceGrows (\<lambda>c. \<not> handlesLayer c) w (snd (Some m, w))"
      by (simp add: collected_refl traceGrows_refl)
  qed (rule chain_step)
  then show "traceGrows (\<lambda>c. \<not> handlesLayer c) w w'" and "collected m md'" by simp_all
qed

theorem filterLayerBlobs_skips_layers_witness:
  "isLayerMediaType (MediaType exLayerDesc) \<and>
   Handlers (normalHandlers exEnv exRef (Only exPlatform) (\<lambda>d x. (Inr [], x))) exLayerDesc
       (Some [], exWorld) =
     (Inl ErrSkipDesc, (Some [], exWorld)) \<and>
   \<not> isLayerMediaType (MediaType exConfigDesc) \<and>
   filterLayerBlobs exConfigDesc (Some []) =
     (Inr [], Some (AList.update (Digest exConfigDesc) exConfigDesc [])) \<and>
   Dispatch 5 (Handlers (normalHandlers exEnv exRef (Only exPlatform) (\<lambda>d x. (Inr [], x))))
       [exManifestDesc] (Some [], exWorld) =
     Some (None, (Some exMetadata, \<lparr>ext = (), trace = exHandleCalls\<rparr>)) \<and>
   traceGrows (\<lambda>c. \<not> handlesLayer c) exWorld \<lparr>ext = (), trace = exHandleCalls\<rparr> \<and>
   collected [] (Some exMetadata)"
proof -
  have L: "isLayerMediaType (MediaType exLayerDesc)"
    by (simp add: isLayerMediaType_def exLayerDesc_def)
  have N: "\<not> isLayerMediaType (MediaType exConfigDesc)"
    by (simp add: isLayerMediaType_def exConfigDesc_def mediaType_defs)
  have D: "Dispatch 5 (Handlers (normalHandlers exEnv exRef (Only exPlatform) (\<lambda>d x. (Inr [], x))))
             [exManifestDesc] (Some [], exWorld) =
           Some (None, (Some exMetadata, \<lparr>ext = (), trace = exHandleCalls\<rparr>))"
    by (simp add: pull_defs ex_defs mediaType_defs Let_def)
  show ?thesis
    using L N D
      filterLayerBlobs_skips_layers [where d = exLayerDesc and env = exEnv and f = exRef
        and pf = "Only exPlatform" and dsl = "\<lambda>d x. (Inr [], x)" and md = "Some []"
        and w = exWorld and n = 5 and ds = "[exManifestDesc]" and m = "[]"]
      filterLayerBlobs_skips_layers [where d = exConfigDesc and env = exEnv and f = exRef
        and pf = "Only exPlatform" and dsl = "\<lambda>d x. (Inr [], x)" and md = "Some []"
        and w = exWorld and n = 5 and ds = "[exManifestDesc]" and m = "[]"]
    by simp
qed

section \<open>Properties of the walk\<close>

lemma walkHandlers_members:
  assumes "walkHandlers env p f pf = Inr hs" and "h \<in> set hs"
  shows "h = onMetadata filterLayerBlobs \<or> (\<exists>n g. h = onWorld n g)"
proof (cases "MediaType (desc p) = MediaTypeDockerSchema1Manifest")
  case True
  with assms have "h = onWorld H_schema1 (schema1_Handle env f)"
    by (auto simp: walkHandlers_def)
  then show ?thesis by blast
next
  case False
  with assms(1) obtain dsl where "hs = normalHandlers env f pf dsl"
    by (auto simp: walkHandlers_def split: sum.splits)
  with assms(2) show ?thesis
    unfolding normalHandlers_def by fastforce
qed

lemma handler_keeps_metadata:
  assumes "h = onMetadata filterLayerBlobs \<or> (\<exists>n g. h = onWorld n g)"
    and "h d s = (r, s')" and "fst s \<noteq> None"
  shows "fst s' \<noteq> None"
  using assms
  by (auto simp: onMetadata_def onWorld_def filterLayerBlobs_def split: prod.splits if_splits)

lemma Dispatch_keeps_metadata:
  assumes hs: "\<And>h. h \<in> set hs \<Longrightarrow> h = onMetadata filterLayerBlobs \<or> (\<exists>n g. h = onWorld n g)"
    and D: "Dispatch n (Handlers hs) ds s = Some (r, s')" and s: "fst s \<noteq> None"
  shows "fst s' \<noteq> None"
proof (rule Dispatch_preserves [where I = "\<lambda>t. fst t \<noteq> None", OF _ s D])
  fix d t r t'
  assume It: "fst t \<noteq> None" and run: "Handlers hs d t = (r, t')"
  show "fst t' \<noteq> None"
  proof (rule Handlers_preserves [where I = "\<lambda>t. fst t \<noteq> None", OF _ It run])
    fix h u r u'
    assume "h \<in> set hs" and "fst u \<noteq> None" and "h d u = (r, u')"
    then show "fst u' \<noteq> None" using hs handler_keeps_metadata by blast
  qed
qed

lemma walk_stages:
  assumes "walk fuel env p w = Some (Inr md, p1, w1)"
  shows "\<exists>fetcher x0 handlers s2.
           Resolver_Fetcher env (ref p) (ext w) = (Inr fetcher, x0) \<and>
           walkHandlers env p fetcher (Only (Platform_p p)) = Inr handlers \<and>
           Dispatch fuel (Handlers handlers) [desc p]
             (Some [], \<lparr>ext = x0, trace = trace w @ [Call_Fetcher (ref p)]\<rparr>) = Some (None, s2) \<and>
           convertSchema1 fuel env p fetcher (Only (Platform_p p)) s2 = Some (Inr md, p1, w1)"
proof -
  obtain rf x0 where rf: "Resolver_Fetcher env (ref p) (ext w) = (rf, x0)"
    by (cases "Resolver_Fetcher env (ref p) (ext w)")
  let ?w0 = "\<lparr>ext = x0, trace = trace w @ [Call_Fetcher (ref p)]\<rparr>"
  have f: "extcall (Call_Fetcher (ref p)) (Resolver_Fetcher env (ref p)) w = (rf, ?w0)"
    using rf by (simp add: extcall_def)
  show ?thesis
  proof (cases rf)
    case (Inl err)
    with assms f show ?thesis by (simp add: walk_def)
  next
    case (Inr fetcher)
    show ?thesis
    proof (cases "walkHandlers env p fetcher (Only (Platform_p p))")
      case (Inl err)
      with assms f Inr show ?thesis by (simp add: walk_def)
    next
      case hs: (Inr handlers)
      show ?thesis
      proof (cases "Dispatch fuel (Handlers handlers) [desc p] (Some [], ?w0)")
        case None
        with assms f Inr hs show ?thesis by (simp add: walk_def)
      next
        case (Some a)
        obtain e s2 where a: "a = (e, s2)" by (cases a)
        have D: "Dispatch fuel (Handlers handlers) [desc p] (Some [], ?w0) = Some (e, s2)"
          using Some a by simp
        show ?thesis
        proof (cases e)
          case (Some err)
          with assms f Inr hs D show ?thesis by (simp add: walk_def)
        next
          case None
          with assms f Inr hs D
          have "convertSchema1 fuel env p fetcher (Only (Platform_p p)) s2 = Some (Inr md, p1, w1)"
            by (simp add: walk_def)
          with rf Inr hs D None show ?thesis by blast
        qed
      qed
    qed
  qed
qed

lemma convertSchema1_metadata:
  assumes "convertSchema1 fuel env p f pf s = Some (Inr md, p1, w1)" and "fst s \<noteq> None"
  shows "md \<noteq> None"
proof (cases "MediaType (desc p) = MediaTypeDockerSchema1Manifest")
  case False
  with assms show ?thesis by (simp add: convertSchema1_def)
next
  case True
  obtain d e w3 where c: "extcall Call_Convert (schema1_Convert env f) (snd s) = ((d, e), w3)"
    by (metis surj_pair)
  show ?thesis
  proof (cases e)
    case (Some err)
    with assms True c show ?thesis by (simp add: convertSchema1_def)
  next
    case None
    let ?hs = "[onMetadata filterLayerBlobs,
                onWorld H_children (FilterPlatforms env (ChildrenHandler env) pf)]"
    from assms True c None obtain s4 where
      D: "Dispatch fuel (Handlers ?hs) [d] (fst s, w3) = Some (None, s4)" and md: "md = fst s4"
      by (auto simp: convertSchema1_def split: option.splits prod.splits)
    have "fst s4 \<noteq> None"
    proof (rule Dispatch_keeps_metadata [OF _ D])
      fix h assume "h \<in> set ?hs"
      then show "h = onMetadata filterLayerBlobs \<or> (\<exists>n g. h = onWorld n g)" by auto
    qed (simp add: assms(2))
    with md show ?thesis by simp
  qed
qed

lemma walk_metadata:
  assumes "walk fuel env p w = Some (Inr md, p1, w1)"
  shows "\<exists>m. md = Some m"
proof -
  from walk_stages [OF assms] obtain fetcher x0 handlers s2 where
    hs: "walkHandlers env p fetcher (Only (Platform_p p)) = Inr handlers"
    and D: "Dispatch fuel (Handlers handlers) [desc p]
              (Some [], \<lparr>ext = x0, trace = trace w @ [Call_Fetcher (ref p)]\<rparr>) = Some (None, s2)"
    and c: "convertSchema1 fuel env p fetcher (Only (Platform_p p)) s2 = Some (Inr md, p1, w1)"
    by blast
  have "fst s2 \<noteq> None"
    by (rule Dispatch_keeps_metadata [OF walkHandlers_members [OF hs] D]) simp_all
  from convertSchema1_metadata [OF c this] show ?thesis by (cases md) simp_all
qed

lemma walkHandlers_traceGrows:
  assumes "walkHandlers env p f pf = Inr hs" and "h \<in> set hs" and "h d s = (r, s')"
  shows "traceGrows (\<lambda>c. \<not> isResolutionCall c) (snd s) (snd s')"
proof -
  have "h = onMetadata filterLayerBlobs \<or> (\<exists>n g. h = onWorld n g)"
  proof (cases "MediaType (desc p) = MediaTypeDockerSchema1Manifest")
    case True
    with assms(1,2) have "h = onWorld H_schema1 (schema1_Handle env f)"
      by (auto simp: walkHandlers_def)
    then show ?thesis by blast
  next
    case False
    with assms(1) obtain dsl where "hs = normalHandlers env f pf dsl"
      by (auto simp: walkHandlers_def split: sum.splits)
    with assms(2) show ?thesis
      unfolding normalHandlers_def by fastforce
  qed
  then show ?thesis
  proof
    assume "h = onMetadata filterLayerBlobs"
    with assms(3) have "snd s' = snd s" by (simp add: onMetadata_world)
    then show ?thesis by (simp add: traceGrows_refl)
  next
    assume "\<exists>n g. h = onWorld n g"
    then obtain n g where "h = onWorld n g" by blast
    with assms(3) have "onWorld n g d s = (r, s')" by simp
    from onWorld_traceGrows [OF this, of "\<lambda>c. \<not> isResolutionCall c"] show ?thesis by simp
  qed
qed

lemma Dispatch_Handlers_traceGrows:
  assumes hs: "\<And>h d s r s'. h \<in> set hs \<Longrightarrow> h d s = (r, s') \<Longrightarrow> traceGrows (\<lambda>c. \<not> isResolutionCall c) (snd s) (snd s')"
    and D: "Dispatch n (Handlers hs) ds s = Some (r, s')"
  shows "traceGrows (\<lambda>c. \<not> isResolutionCall c) (snd s) (snd s')"
proof (rule Dispatch_preserves [where I = "\<lambda>t. traceGrows (\<lambda>c. \<not> isResolutionCall c) (snd s) (snd t)", OF _ _ D])
  show "traceGrows (\<lambda>c. \<not> isResolutionCall c) (snd s) (snd s)" by (rule traceGrows_refl)
next
  fix d t r t'
  assume It: "traceGrows (\<lambda>c. \<not> isResolutionCall c) (snd s) (snd t)" and run: "Handlers hs d t = (r, t')"
  show "traceGrows (\<lambda>c. \<not> isResolutionCall c) (snd s) (snd t')"
  proof (rule Handlers_preserves [where I = "\<lambda>t. traceGrows (\<lambda>c. \<not> isResolutionCall c) (snd s) (snd t)", OF _ It run])
    fix h u r u'
    assume "h \<in> set hs" and Iu: "traceGrows (\<lambda>c. \<not> isResolutionCall c) (snd s) (snd u)" and "h d u = (r, u')"
    then have "traceGrows (\<lambda>c. \<not> isResolutionCall c) (snd u) (snd u')" using hs by blast
    with Iu show "traceGrows (\<lambda>c. \<not> isResolutionCall c) (snd s) (snd u')" by (rule traceGrows_trans)
  qed
qed

lemma convertSchema1_traceGrows:
  assumes "convertSchema1 fuel env p f pf s = Some (r, p1, w1)"
  shows "traceGrows (\<lambda>c. \<not> isResolutionCall c) (snd s) w1"
proof (cases "MediaType (desc p) = MediaTypeDockerSchema1Manifest")
  case False
  with assms have "w1 = snd s" by (simp add: convertSchema1_def)
  then show ?thesis by (simp add: traceGrows_refl)
next
  case True
  obtain d e w3 where c: "extcall Call_Convert (schema1_Convert env f) (snd s) = ((d, e), w3)"
    by (metis surj_pair)
  have g3: "traceGrows (\<lambda>c. \<not> isResolutionCall c) (snd s) w3"
    using extcall_traceGrows [OF _ c, of "\<lambda>c. \<not> isResolutionCall c"] by simp
  show ?thesis
  proof (cases e)
    case (Some err)
    with assms True c have "w1 = w3" by (simp add: convertSchema1_def)
    with g3 show ?thesis by simp
  next
    case None
    let ?hs = "[onMetadata filterLayerBlobs,
                onWorld H_children (FilterPlatforms env (ChildrenHandler env) pf)]"
    from assms True c None obtain e4 s4 where
      D: "Dispatch fuel (Handlers ?hs) [d] (fst s, w3) = Some (e4, s4)" and w1: "w1 = snd s4"
      by (auto simp: convertSchema1_def split: option.splits prod.splits)
    have "traceGrows (\<lambda>c. \<not> isResolutionCall c) (snd (fst s, w3)) (snd s4)"
    proof (rule Dispatch_Handlers_traceGrows [OF _ D])
      fix h d t r t'
      assume "h \<in> set ?hs" and run: "h d t = (r, t')"
      then have "h = onMetadata filterLayerBlobs \<or> (\<exists>n g. h = onWorld n g)" by auto
      then show "traceGrows (\<lambda>c. \<not> isResolutionCall c) (snd t) (snd t')"
      proof
        assume "h = onMetadata filterLayerBlobs"
        with run have "snd t' = snd t" by (simp add: onMetadata_world)
        then show ?thesis by (simp add: traceGrows_refl)
      next
        assume "\<exists>n g. h = onWorld n g"
        then obtain n g where "h = onWorld n g" by blast
        with run have "onWorld n g d t = (r, t')" by simp
        from onWorld_traceGrows [OF this, of "\<lambda>c. \<not> isResolutionCall c"] show ?thesis by simp
      qed
    qed
    with g3 w1 show ?thesis by (auto intro: traceGrows_trans)
  qed
qed

lemma walk_trace_calls:
  assumes "walk fuel env p w = Some (r, p1, w1)"
  shows "\<exists>rest. trace w1 = trace w @ Call_Fetcher (ref p) # rest \<and>
                (\<forall>c \<in> set rest. \<not> isResolutionCall c)"
proof -
  obtain rf w0 where f: "extcall (Call_Fetcher (ref p)) (Resolver_Fetcher env (ref p)) w = (rf, w0)"
    by (metis surj_pair)
  then have t0: "trace w0 = trace w @ [Call_Fetcher (ref p)]"
    by (auto simp: extcall_def split: prod.splits)
  have fin: "\<exists>rest. trace w1 = trace w @ Call_Fetcher (ref p) # rest \<and>
                     (\<forall>c \<in> set rest. \<not> isResolutionCall c)"
    if "traceGrows (\<lambda>c. \<not> isResolutionCall c) w0 w1"
    using that t0 by (auto simp: traceGrows_def)
  show ?thesis
  proof (cases rf)
    case (Inl err)
    with assms f have "w1 = w0" by (simp add: walk_def)
    with fin traceGrows_refl [of "\<lambda>c. \<not> isResolutionCall c" w0] show ?thesis by blast
  next
    case (Inr fetcher)
    show ?thesis
    proof (cases "walkHandlers env p fetcher (Only (Platform_p p))")
      case (Inl err)
      with assms f Inr have "w1 = w0" by (simp add: walk_def)
      with fin traceGrows_refl [of "\<lambda>c. \<not> isResolutionCall c" w0] show ?thesis by blast
    next
      case hs: (Inr handlers)
      show ?thesis
      proof (cases "Dispatch fuel (Handlers handlers) [desc p] (Some [], w0)")
        case None
        with assms f Inr hs show ?thesis by (simp add: walk_def)
      next
        case (Some a)
        obtain e s2 where a: "a = (e, s2)" by (cases a)
        have D: "Dispatch fuel (Handlers handlers) [desc p] (Some [], w0) = Some (e, s2)"
          using Some a by simp
        have g2: "traceGrows (\<lambda>c. \<not> isResolutionCall c) w0 (snd s2)"
          using Dispatch_Handlers_traceGrows [OF walkHandlers_traceGrows [OF hs] D] by simp
        show ?thesis
        proof (cases e)
          case (Some err)
          with assms f Inr hs D have "w1 = snd s2" by (simp add: walk_def)
          with g2 fin show ?thesis by simp
        next
          case None
          with assms f Inr hs D
          have "convertSchema1 fuel env p fetcher (Only (Platform_p p)) s2 = Some (r, p1, w1)"
            by (simp add: walk_def)
          from convertSchema1_traceGrows [OF this] g2
          have "traceGrows (\<lambda>c. \<not> isResolutionCall c) w0 w1"
            by (auto intro: traceGrows_trans)
          then show ?thesis by (rule fin)
        qed
      qed
    qed
  qed
qed

lemma walk_traceGrows:
  assumes "walk fuel env p w = Some (r, p1, w1)"
  shows "traceGrows (\<lambda>c. \<not> isResolutionCall c) w w1"
  using walk_trace_calls [OF assms] by (auto simp: traceGrows_def)




lemma PullManifests_resolved:
  assumes "resolveOnce p" and "resolveErr p = None"
  shows "PullManifests fuel env p w =
     (case walk fuel env p w of
        None \<Rightarrow> None
      | Some (Inl err, p2, w2) \<Rightarrow> Some (Inl err, p2, w2)
      | Some (Inr md, p2, w2) \<Rightarrow>
          (let p3 = foldl partitionStep p2
                      (mapRange env (ext w2) (case md of None \<Rightarrow> [] | Some m \<Rightarrow> m))
           in case getLayers env (desc p2) (Only (Platform_p p2)) w2 of
                (Inl err, w3) \<Rightarrow> Some (Inl err, p3\<lparr>layers := []\<rparr>, w3)
              | (Inr ls, w3) \<Rightarrow>
                  Some (Inr \<lparr>Ref = ref p2, MainManifestDesc = desc p2,
                             ConfigDesc = configDesc p3, Nonlayers = nonlayers p3,
                             Remote = \<lparr>Descriptors = ls\<rparr>\<rparr>,
                        p3\<lparr>layers := ls\<rparr>, w3)))"
proof (cases "walk fuel env p w")
  case None
  then show ?thesis using assms by (simp add: PullManifests_def resolve_done)
next
  case (Some a)
  obtain rw p2 w2 where a: "a = (rw, p2, w2)" by (cases a)
  have r: "resolve env p w = (None, p, w)" using assms by (simp add: resolve_done)
  show ?thesis
  proof (cases rw)
    case (Inl err)
    then show ?thesis using Some a r by (simp add: PullManifests_def)
  next
    case (Inr md)
    with Some a have w: "walk fuel env p w = Some (Inr md, p2, w2)" by simp
    show ?thesis by (simp add: PullManifests_stages [OF r w] w)
  qed
qed

section \<open>Config and non-layer descriptors\<close>

text \<open>
  C7, as stated, fails: in the example the descriptor returned as the config is also an
  element of the returned non-layer sequence.
\<close>

theorem config_in_nonlayers_counterexample:
  "PullManifests 5 exEnv exPuller exWorld = Some (Inr exResult1, exPuller1, exWorld1) \<and>
   ConfigDesc exResult1 = exConfigDesc \<and>
   Nonlayers exResult1 = [exManifestDesc, exConfigDesc] \<and>
   ConfigDesc exResult1 \<in> set (Nonlayers exResult1)"
  using ex_first_call by (simp add: exResult1_def)

text \<open>
  C7, amended. The walk returns a metadata map that is not nil. When the range over
  that map visits every entry once, the loop appends every entry of the map to the
  non-layer sequence, whatever its media type, and it also records as the config each
  entry whose media type is a config type, the last such entry in iteration order
  staying. So the two parts are not disjoint: whenever the map holds an entry with a
  config media type, the returned config is an entry of the map and an element of the
  returned non-layer sequence.
\<close>

theorem PullManifests_appends_all:
  assumes "resolve env p w = (None, p1, w1)"
    and "walk fuel env p1 w1 = Some (Inr md, p2, w2)"
    and "PullManifests fuel env p w = Some (Inr r, p', w')"
    and "rangesEveryEntry env"
  shows "\<exists>m. md = Some m \<and>
           Nonlayers r = nonlayers p @ mapRange env (ext w2) m \<and>
           mset (Nonlayers r) = mset (nonlayers p) + mset (map snd m) \<and>
           ConfigDesc r =
             (if \<exists>d \<in> snd ` set m. isConfigMediaType (MediaType d)
              then last (filter (\<lambda>d. isConfigMediaType (MediaType d)) (mapRange env (ext w2) m))
              else configDesc p) \<and>
           ((\<exists>d \<in> snd ` set m. isConfigMediaType (MediaType d)) \<longrightarrow>
              ConfigDesc r \<in> snd ` set m \<and> isConfigMediaType (MediaType (ConfigDesc r)) \<and>
              ConfigDesc r \<in> set (Nonlayers r))"
proof -
  from walk_metadata [OF assms(2)] obtain m where md: "md = Some m" by blast
  let ?es = "mapRange env (ext w2) m"
  let ?C = "\<lambda>d. isConfigMediaType (MediaType d)"
  have ms: "mset ?es = mset (map snd m)"
    using assms(4) by (simp add: rangesEveryEntry_def)
  have "set_mset (mset ?es) = set_mset (mset (map snd m))"
    by (simp only: ms)
  then have st: "snd ` set m = set ?es" by simp
  have p2: "nonlayers p2 = nonlayers p" "configDesc p2 = configDesc p"
    using resolve_frame [OF assms(1)] walk_frame [OF assms(2)] by simp_all
  note res = PullManifests_result [OF assms(1) assms(2) [unfolded md] assms(3)]
  have nl: "Nonlayers r = nonlayers p @ ?es"
    using res by (simp add: foldl_partitionStep_nonlayers p2)
  have cfg: "ConfigDesc r = (if \<exists>d \<in> set ?es. ?C d then last (filter ?C ?es) else configDesc p)"
    using res by (simp add: foldl_partitionStep_configDesc p2)
  have msn: "mset (Nonlayers r) = mset (nonlayers p) + mset (map snd m)"
    by (simp add: nl ms)
  have imp: "(\<exists>d \<in> set ?es. ?C d) \<longrightarrow>
               ConfigDesc r \<in> set ?es \<and> ?C (ConfigDesc r) \<and> ConfigDesc r \<in> set (Nonlayers r)"
  proof
    assume ex: "\<exists>d \<in> set ?es. ?C d"
    then have "filter ?C ?es \<noteq> []" by (simp add: filter_empty_conv)
    then have "last (filter ?C ?es) \<in> set (filter ?C ?es)" by (rule last_in_set)
    moreover have "ConfigDesc r = last (filter ?C ?es)" using cfg ex by simp
    ultimately have "ConfigDesc r \<in> set ?es" and "?C (ConfigDesc r)" by simp_all
    then show "ConfigDesc r \<in> set ?es \<and> ?C (ConfigDesc r) \<and> ConfigDesc r \<in> set (Nonlayers r)"
      by (simp add: nl)
  qed
  show ?thesis
  proof (intro exI conjI)
    show "md = Some m" by (rule md)
    show "Nonlayers r = nonlayers p @ ?es" by (rule nl)
    show "mset (Nonlayers r) = mset (nonlayers p) + mset (map snd m)" by (rule msn)
    show "ConfigDesc r = (if \<exists>d \<in> snd ` set m. ?C d then last (filter ?C ?es) else configDesc p)"
      unfolding st by (rule cfg)
    show "(\<exists>d \<in> snd ` set m. ?C d) \<longrightarrow>
            ConfigDesc r \<in> snd ` set m \<and> ?C (ConfigDesc r) \<and> ConfigDesc r \<in> set (Nonlayers r)"
      unfolding st by (rule imp)
  qed
qed

theorem PullManifests_appends_all_witness:
  "resolve exEnv exPuller exWorld = (None, exResolved, exResolvedWorld) \<and>
   walk 5 exEnv exResolved exResolvedWorld = Some (Inr (Some exMetadata), exResolved, exWalkedWorld) \<and>
   PullManifests 5 exEnv exPuller exWorld = Some (Inr exResult1, exPuller1, exWorld1) \<and>
   rangesEveryEntry exEnv \<and>
   (\<exists>d \<in> snd ` set exMetadata. isConfigMediaType (MediaType d)) \<and>
   mset (Nonlayers exResult1) = mset (nonlayers exPuller) + mset (map snd exMetadata) \<and>
   ConfigDesc exResult1 \<in> set (Nonlayers exResult1)"
proof -
  have rg: "rangesEveryEntry exEnv"
    by (simp add: rangesEveryEntry_def exEnv_def)
  have c: "\<exists>d \<in> snd ` set exMetadata. isConfigMediaType (MediaType d)"
    by (simp add: isConfigMediaType_def exConfigDesc_def exMetadata_def)
  from PullManifests_appends_all [OF ex_resolved ex_walked ex_first_call rg] c
  have "mset (Nonlayers exResult1) = mset (nonlayers exPuller) + mset (map snd exMetadata)"
    and "ConfigDesc exResult1 \<in> set (Nonlayers exResult1)"
    by auto
  with ex_resolved ex_walked ex_first_call rg c show ?thesis by blast
qed

section \<open>Later calls on a resolved puller\<close>





subsection \<open>A second call of PullManifests\<close>




subsection \<open>Resolution over the lifetime of an instance\<close>




end
